theory Spec2Isabelle
  imports Complex_Main
begin

section \<open>JavaScript values\<close>

text \<open>
  The storage engine is written in TypeScript and handles values of type \<open>any\<close>.  The model
  covers the primitive values: \<open>undefined\<close>, \<open>null\<close>, booleans, numbers and strings.  Objects
  (arrays, \<open>Date\<close> instances, nested records) are outside the model, so \<open>instanceof Date\<close>
  is false of every modelled value.

  A number is \<open>NaN\<close>, an infinity or a finite value.  Finite values are exact rationals: the
  rounding of IEEE doubles is not modelled, and \<open>-0\<close> is identified with \<open>0\<close> (the code never
  tells them apart: \<open>===\<close> and the key comparison of \<open>Map\<close> equate them).
\<close>

datatype jsnum = NaN | PosInf | NegInf | Fin rat

datatype jsval = Undefined | Null | Bool bool | Num jsnum | Str string

datatype js_error = RangeError | Error string

text \<open>\<open>a !== b\<close> on primitives: structural, except that \<open>NaN\<close> differs from itself.
  (Keys of a \<open>Map\<close> are compared by SameValueZero, which is HOL equality on \<open>jsval\<close>.)\<close>

definition strict_neq :: "jsval \<Rightarrow> jsval \<Rightarrow> bool" where
  "strict_neq a b = (a \<noteq> b \<or> a = Num NaN)"

definition typeof :: "jsval \<Rightarrow> string" where
  "typeof v = (case v of Undefined \<Rightarrow> ''undefined'' | Null \<Rightarrow> ''object''
     | Bool _ \<Rightarrow> ''boolean'' | Num _ \<Rightarrow> ''number'' | Str _ \<Rightarrow> ''string'')"

definition isNaN :: "jsnum \<Rightarrow> bool" where
  "isNaN n = (n = NaN)"

text \<open>\<open>Number.isInteger\<close>: a finite number without fractional part.\<close>

definition Number_isInteger :: "jsnum \<Rightarrow> bool" where
  "Number_isInteger n = (case n of Fin q \<Rightarrow> \<lfloor>q\<rfloor> = \<lceil>q\<rceil> | _ \<Rightarrow> False)"

subsection \<open>Reading numbers from strings\<close>

text \<open>Strings are byte strings; of the white space of ECMAScript the ASCII characters
  (tab, line feed, vertical tab, form feed, carriage return, space) are recognised.\<close>

definition is_ws :: "char \<Rightarrow> bool" where
  "is_ws c = (c \<in> {CHR 0x09, CHR 0x0A, CHR 0x0B, CHR 0x0C, CHR 0x0D, CHR 0x20})"

definition trim_start :: "string \<Rightarrow> string" where
  "trim_start s = dropWhile is_ws s"

definition trim :: "string \<Rightarrow> string" where
  "trim s = rev (dropWhile is_ws (rev (dropWhile is_ws s)))"

definition digit_of :: "char \<Rightarrow> nat option" where
  "digit_of c = (let n = of_char c :: nat in
     if 48 \<le> n \<and> n \<le> 57 then Some (n - 48)
     else if 97 \<le> n \<and> n \<le> 102 then Some (n - 87)
     else if 65 \<le> n \<and> n \<le> 70 then Some (n - 55)
     else None)"

definition is_digit :: "nat \<Rightarrow> char \<Rightarrow> bool" where
  "is_digit radix c = (case digit_of c of Some d \<Rightarrow> d < radix | None \<Rightarrow> False)"

definition digits_value :: "nat \<Rightarrow> string \<Rightarrow> nat" where
  "digits_value radix ds = foldl (\<lambda>acc c. acc * radix + (case digit_of c of Some d \<Rightarrow> d | None \<Rightarrow> 0)) 0 ds"

text \<open>An optional sign: the factor and the rest of the string.\<close>

definition read_sign :: "string \<Rightarrow> rat \<times> string" where
  "read_sign s = (case s of
       c # r \<Rightarrow> if c = CHR ''-'' then (-1, r) else if c = CHR ''+'' then (1, r) else (1, s)
     | [] \<Rightarrow> (1, s))"

text \<open>The exponent part \<open>e\<close>, sign, digits of a decimal literal, when it is complete; the
  exponent read and the rest.  An incomplete exponent is not part of the literal.\<close>

definition read_exponent :: "string \<Rightarrow> int \<times> string" where
  "read_exponent s = (case s of
       c # r \<Rightarrow>
         if c = CHR ''e'' \<or> c = CHR ''E'' then
           (let (sg, r1) = (case r of
                  d # r' \<Rightarrow> if d = CHR ''-'' then (-1 :: int, r') else if d = CHR ''+'' then (1, r') else (1, r)
                | [] \<Rightarrow> (1, r));
                ds = takeWhile (is_digit 10) r1
            in if ds = [] then (0, s) else (sg * int (digits_value 10 ds), dropWhile (is_digit 10) r1))
         else (0, s)
     | [] \<Rightarrow> (0, s))"

definition pow10 :: "int \<Rightarrow> rat" where
  "pow10 e = (if 0 \<le> e then 10 ^ nat e else 1 / 10 ^ nat (- e))"

text \<open>The longest prefix that is an unsigned decimal literal (digits, an optional fraction,
  an optional exponent): its value and the rest, or \<open>None\<close> when there is no such prefix.\<close>

definition read_unsigned_decimal :: "string \<Rightarrow> (rat \<times> string) option" where
  "read_unsigned_decimal s =
     (let ip = takeWhile (is_digit 10) s; r1 = dropWhile (is_digit 10) s;
          has_dot = (r1 \<noteq> [] \<and> hd r1 = CHR ''.'');
          fp = (if has_dot then takeWhile (is_digit 10) (tl r1) else []);
          r2 = (if has_dot then dropWhile (is_digit 10) (tl r1) else r1)
      in if ip = [] \<and> fp = [] then None
         else (let m = of_nat (digits_value 10 ip) + of_nat (digits_value 10 fp) / 10 ^ length fp;
                   (e, r3) = read_exponent r2
               in Some (m * pow10 e, r3)))"

text \<open>The longest prefix that is a signed decimal literal or a signed \<open>Infinity\<close>.\<close>

definition read_decimal :: "string \<Rightarrow> (jsnum \<times> string) option" where
  "read_decimal s =
     (let (sg, r) = read_sign s in
      if take 8 r = ''Infinity'' then Some (if sg < 0 then NegInf else PosInf, drop 8 r)
      else map_option (\<lambda>(q, r'). (Fin (sg * q), r')) (read_unsigned_decimal r))"

text \<open>A literal with a radix prefix (\<open>0x\<close>, \<open>0o\<close>, \<open>0b\<close>, in either case): unsigned, digits only.\<close>

definition radix_prefix :: "string \<Rightarrow> nat option" where
  "radix_prefix s = (case s of
       a # b # _ \<Rightarrow>
         if a \<noteq> CHR ''0'' then None
         else if b = CHR ''x'' \<or> b = CHR ''X'' then Some 16
         else if b = CHR ''o'' \<or> b = CHR ''O'' then Some 8
         else if b = CHR ''b'' \<or> b = CHR ''B'' then Some 2
         else None
     | _ \<Rightarrow> None)"

text \<open>\<open>Number(s)\<close> for a string: white space trimmed, the empty string is \<open>0\<close>, the whole
  rest must be one numeric literal.  The value is the exact value of the literal: the code's
  double is that value rounded, an infinity beyond the largest double and \<open>0\<close> below the
  smallest, which the model does not follow (so \<open>1.00000000000000001\<close>, \<open>1e309\<close> and
  \<open>1e-400\<close> are read differently).\<close>

definition StringToNumber :: "string \<Rightarrow> jsnum" where
  "StringToNumber s =
     (let t = trim s in
      if t = [] then Fin 0
      else case radix_prefix t of
        Some radix \<Rightarrow>
          (let ds = drop 2 t in
           if ds \<noteq> [] \<and> list_all (is_digit radix) ds then Fin (of_nat (digits_value radix ds)) else NaN)
      | None \<Rightarrow>
          (case read_decimal t of
             Some (n, r) \<Rightarrow> if r = [] then n else NaN
           | None \<Rightarrow> NaN))"

text \<open>\<open>Number(v)\<close>.\<close>

definition ToNumber :: "jsval \<Rightarrow> jsnum" where
  "ToNumber v = (case v of
       Undefined \<Rightarrow> NaN
     | Null \<Rightarrow> Fin 0
     | Bool b \<Rightarrow> Fin (if b then 1 else 0)
     | Num n \<Rightarrow> n
     | Str s \<Rightarrow> StringToNumber s)"

text \<open>\<open>parseInt(s)\<close> without radix: leading white space, a sign, an optional \<open>0x\<close>, then the
  longest run of digits; \<open>NaN\<close> when there is none.\<close>

definition parseInt_string :: "string \<Rightarrow> jsnum" where
  "parseInt_string s =
     (let (sg, r) = read_sign (trim_start s);
          hex = (radix_prefix r = Some 16);
          radix = (if hex then 16 else 10);
          r' = (if hex then drop 2 r else r);
          ds = takeWhile (is_digit radix) r'
      in if ds = [] then NaN else Fin (sg * of_nat (digits_value radix ds)))"

text \<open>\<open>parseFloat(s)\<close>: leading white space, then the longest prefix that is a decimal
  literal; \<open>NaN\<close> when there is none.\<close>

definition parseFloat_string :: "string \<Rightarrow> jsnum" where
  "parseFloat_string s = (case read_decimal (trim_start s) of Some (n, _) \<Rightarrow> n | None \<Rightarrow> NaN)"

subsection \<open>Writing numbers as strings\<close>

definition digit_char :: "nat \<Rightarrow> char" where
  "digit_char d = char_of (48 + d)"

fun nat_digits :: "nat \<Rightarrow> string" where
  "nat_digits n = (if n < 10 then [digit_char n] else nat_digits (n div 10) @ [digit_char (n mod 10)])"

text \<open>The position \<open>n\<close> of the decimal point of a positive \<open>q\<close>: \<open>10 ^ (n - 1) \<le> q < 10 ^ n\<close>.
  For \<open>q < 1\<close> the least \<open>m\<close> with \<open>1 \<le> q * 10 ^ m\<close> is the number of digits of
  \<open>\<lceil>1 / q\<rceil> - 1\<close>, and \<open>n = 1 - m\<close>.\<close>

definition decimal_point :: "rat \<Rightarrow> int" where
  "decimal_point q =
     (if 1 \<le> q then int (length (nat_digits (nat \<lfloor>q\<rfloor>)))
      else 1 - int (length (nat_digits (nat (\<lceil>1 / q\<rceil> - 1)))))"

text \<open>The number \<open>k\<close> of significant digits: the least \<open>k\<close> for which \<open>q * 10 ^ (k - n)\<close> is an
  integer, at most 17 (a double never prints more; a rational with a longer expansion is
  cut there).\<close>

definition significant_digits :: "rat \<Rightarrow> int \<Rightarrow> nat" where
  "significant_digits q n =
     (case List.find (\<lambda>k. \<lfloor>q * pow10 (int k - n)\<rfloor> = \<lceil>q * pow10 (int k - n)\<rceil>) [1..<17] of
        Some k \<Rightarrow> k
      | None \<Rightarrow> 17)"

text \<open>\<open>Number.prototype.toString\<close> in radix 10 for a positive finite number: plain digits
  up to 21 integer digits, a leading \<open>0.\<close> down to \<open>1e-6\<close>, exponent notation beyond.\<close>

definition positive_to_string :: "rat \<Rightarrow> string" where
  "positive_to_string q =
     (let n = decimal_point q;
          k = significant_digits q n;
          ds = nat_digits (nat \<lfloor>q * pow10 (int k - n)\<rfloor>);
          ex = (if 0 \<le> n - 1 then ''+'' else ''-'') @ nat_digits (nat \<bar>n - 1\<bar>)
      in if int k \<le> n \<and> n \<le> 21 then ds @ replicate (nat (n - int k)) (CHR ''0'')
         else if 0 < n \<and> n \<le> 21 then take (nat n) ds @ ''.'' @ drop (nat n) ds
         else if - 6 < n \<and> n \<le> 0 then ''0.'' @ replicate (nat (- n)) (CHR ''0'') @ ds
         else if k = 1 then ds @ ''e'' @ ex
         else take 1 ds @ ''.'' @ drop 1 ds @ ''e'' @ ex)"

definition Number_toString :: "jsnum \<Rightarrow> string" where
  "Number_toString n = (case n of
       NaN \<Rightarrow> ''NaN''
     | PosInf \<Rightarrow> ''Infinity''
     | NegInf \<Rightarrow> ''-Infinity''
     | Fin q \<Rightarrow> if q = 0 then ''0'' else if q < 0 then ''-'' @ positive_to_string (- q)
                else positive_to_string q)"

text \<open>\<open>String(v)\<close> and \<open>Boolean(v)\<close>.\<close>

definition ToString :: "jsval \<Rightarrow> string" where
  "ToString v = (case v of
       Undefined \<Rightarrow> ''undefined''
     | Null \<Rightarrow> ''null''
     | Bool b \<Rightarrow> if b then ''true'' else ''false''
     | Num n \<Rightarrow> Number_toString n
     | Str s \<Rightarrow> s)"

definition ToBoolean :: "jsval \<Rightarrow> bool" where
  "ToBoolean v = (case v of
       Undefined \<Rightarrow> False
     | Null \<Rightarrow> False
     | Bool b \<Rightarrow> b
     | Num n \<Rightarrow> n \<noteq> NaN \<and> n \<noteq> Fin 0
     | Str s \<Rightarrow> s \<noteq> [])"

text \<open>\<open>parseInt(v)\<close> and \<open>parseFloat(v)\<close> convert their argument to a string first.\<close>

definition parseInt :: "jsval \<Rightarrow> jsnum" where
  "parseInt v = parseInt_string (ToString v)"

definition parseFloat :: "jsval \<Rightarrow> jsnum" where
  "parseFloat v = parseFloat_string (ToString v)"

subsection \<open>Dates\<close>

text \<open>
  Which strings \<open>Date.parse\<close> reads is left to the implementation by ECMAScript (beyond the
  ISO format), and the time stamp of a snapshot is the time of the call.  Both are inputs of
  the model: a \<open>host\<close> gives the time value \<open>Date.parse\<close> returns for a string (\<open>NaN\<close> when
  it does not read it), the ISO string of a valid time value, and the current time.
\<close>

record host =
  Date_parse :: "string \<Rightarrow> jsnum"
  Date_toISOString :: "rat \<Rightarrow> string"
  Date_now :: rat

text \<open>\<open>TimeClip\<close>: a time value is an integral number of milliseconds of magnitude at most
  \<open>8.64e15\<close>; everything else is the invalid date \<open>NaN\<close>.\<close>

definition TimeClip :: "jsnum \<Rightarrow> jsnum" where
  "TimeClip n = (case n of
       Fin q \<Rightarrow> if \<bar>q\<bar> \<le> 8640000000000000
                then Fin (of_int (if 0 \<le> q then \<lfloor>q\<rfloor> else \<lceil>q\<rceil>)) else NaN
     | _ \<Rightarrow> NaN)"

text \<open>The time value of \<open>new Date(v)\<close>: a string is parsed, every other value is converted
  to a number.\<close>

definition new_Date :: "host \<Rightarrow> jsval \<Rightarrow> jsnum" where
  "new_Date h v = TimeClip (case v of Str s \<Rightarrow> Date_parse h s | _ \<Rightarrow> ToNumber v)"

text \<open>\<open>d.toISOString()\<close> throws a \<open>RangeError\<close> on an invalid date.\<close>

definition toISOString :: "host \<Rightarrow> jsnum \<Rightarrow> js_error + string" where
  "toISOString h tv = (case tv of Fin t \<Rightarrow> Inr (Date_toISOString h t) | _ \<Rightarrow> Inl RangeError)"

text \<open>\<open>v instanceof Date\<close>: no primitive value is a \<open>Date\<close> object.\<close>

definition instanceof_Date :: "jsval \<Rightarrow> bool" where
  "instanceof_Date v = False"

section \<open>Column\<close>

record Column =
  name :: string
  type :: string
  primaryKey :: bool
  unique :: bool
  nullable :: bool
  defaultValue :: jsval

text \<open>The constructor: \<open>primaryKey\<close> and \<open>unique\<close> default to \<open>false\<close>, \<open>nullable\<close> to \<open>true\<close>
  and \<open>defaultValue\<close> to \<open>null\<close>.  A default applies when the argument is missing or
  \<open>undefined\<close>.\<close>

definition new_Column ::
  "string \<Rightarrow> string \<Rightarrow> bool option \<Rightarrow> bool option \<Rightarrow> bool option \<Rightarrow> jsval \<Rightarrow> Column" where
  "new_Column n ty pk un nu dv =
     \<lparr>name = n, type = ty,
      primaryKey = (case pk of Some b \<Rightarrow> b | None \<Rightarrow> False),
      unique = (case un of Some b \<Rightarrow> b | None \<Rightarrow> False),
      nullable = (case nu of Some b \<Rightarrow> b | None \<Rightarrow> True),
      defaultValue = (if dv = Undefined then Null else dv)\<rparr>"

text \<open>\<open>Column.validate\<close>.  The declared type is a string at run time; the \<open>switch\<close> has a
  default branch for a string that is none of the five types.\<close>

definition validate :: "host \<Rightarrow> Column \<Rightarrow> jsval \<Rightarrow> bool" where
  "validate h c v =
     (if v = Null \<or> v = Undefined then nullable c
      else if type c = ''INTEGER'' then Number_isInteger (ToNumber v)
      else if type c = ''FLOAT'' then \<not> isNaN (ToNumber v)
      else if type c = ''STRING'' then typeof v = ''string''
      else if type c = ''BOOLEAN'' then
        typeof v = ''boolean'' \<or> v = Str ''true'' \<or> v = Str ''false''
        \<or> v = Num (Fin 0) \<or> v = Num (Fin 1)
      else if type c = ''DATE'' then \<not> isNaN (Date_parse h (ToString v)) \<or> instanceof_Date v
      else False)"

text \<open>\<open>Column.serialize\<close>; the \<open>DATE\<close> branch can throw.\<close>

definition serialize :: "host \<Rightarrow> Column \<Rightarrow> jsval \<Rightarrow> js_error + jsval" where
  "serialize h c v =
     (if v = Null \<or> v = Undefined then Inr Null
      else if type c = ''INTEGER'' then Inr (Num (parseInt v))
      else if type c = ''FLOAT'' then Inr (Num (parseFloat v))
      else if type c = ''BOOLEAN'' then Inr (Bool (ToBoolean v))
      else if type c = ''STRING'' then Inr (Str (ToString v))
      else if type c = ''DATE'' then map_sum id Str (toISOString h (new_Date h v))
      else Inr v)"

section \<open>Rows\<close>

text \<open>A row (\<open>RowData\<close>) is an object: a list of properties, each key once.  Reading a missing
  property gives \<open>undefined\<close>; assigning one replaces its value or appends the property.
  Only the properties of the object itself are read: what an object inherits from
  \<open>Object.prototype\<close> (\<open>constructor\<close>, \<open>toString\<close>, \<open>valueOf\<close> and the like, which the code
  reads for a column of such a name that the data leaves out) is not modelled.\<close>

type_synonym RowData = "(string \<times> jsval) list"

definition get :: "RowData \<Rightarrow> string \<Rightarrow> jsval" where
  "get d k = (case map_of d k of Some v \<Rightarrow> v | None \<Rightarrow> Undefined)"

definition keys :: "RowData \<Rightarrow> string list" where
  "keys d = map fst d"

fun put :: "(string \<times> 'a) list \<Rightarrow> string \<Rightarrow> 'a \<Rightarrow> (string \<times> 'a) list" where
  "put [] k v = [(k, v)]"
| "put ((k', v') # d) k v = (if k' = k then (k, v) # d else (k', v') # put d k v)"

section \<open>Table\<close>

text \<open>An index maps a value to the row positions that hold it; a table keeps one index for
  each indexed column name.  \<open>onChange\<close> tells whether the callback of the owning database is
  set; the operations return, beside the new table and their result, whether they called
  it.\<close>

type_synonym index = "jsval \<Rightarrow> nat list option"

record Table =
  table_name :: string
  columns :: "Column list"
  primaryKeyColumn :: "string option"
  rows :: "RowData list"
  indexes :: "string \<Rightarrow> index option"
  onChange :: bool

datatype validation_error =
    ColumnRequired string               \<comment> \<open>Column 'name' is required\<close>
  | InvalidValue string string string   \<comment> \<open>Invalid value for column 'name'. Expected type, got typeof\<close>
  | DuplicateValue string jsval         \<comment> \<open>Duplicate value for unique column 'name': value\<close>

datatype insert_result =
    Inserted RowData                    \<comment> \<open>success: true, row\<close>
  | Rejected "validation_error list"    \<comment> \<open>success: false, errors\<close>

record update_result =
  success :: bool
  rowsAffected :: nat
  errors :: "(nat \<times> validation_error list) list option"   \<comment> \<open>Row at index i: errors\<close>

record delete_result =
  deleted_success :: bool
  deleted_rowsAffected :: nat

definition createIndexes :: "Column list \<Rightarrow> (string \<Rightarrow> index option)" where
  "createIndexes cols =
     fold (\<lambda>c m. if primaryKey c \<or> unique c then m(name c \<mapsto> Map.empty) else m) cols Map.empty"

definition new_Table :: "string \<Rightarrow> Column list \<Rightarrow> string option \<Rightarrow> bool \<Rightarrow> Table" where
  "new_Table n cols pk oc =
     \<lparr>table_name = n, columns = cols, primaryKeyColumn = pk, rows = [],
      indexes = createIndexes cols, onChange = oc\<rparr>"

definition updateIndex ::
  "(string \<Rightarrow> index option) \<Rightarrow> string \<Rightarrow> jsval \<Rightarrow> nat \<Rightarrow> (string \<Rightarrow> index option)" where
  "updateIndex ixs columnName v rowIndex =
     (case ixs columnName of
        None \<Rightarrow> ixs
      | Some ix \<Rightarrow>
          (let indices = (case ix v of None \<Rightarrow> [] | Some is \<Rightarrow> is)
           in ixs(columnName \<mapsto>
                ix(v \<mapsto> (if rowIndex \<in> set indices then indices else indices @ [rowIndex])))))"

definition removeFromIndex ::
  "(string \<Rightarrow> index option) \<Rightarrow> string \<Rightarrow> jsval \<Rightarrow> nat \<Rightarrow> (string \<Rightarrow> index option)" where
  "removeFromIndex ixs columnName v rowIndex =
     (case ixs columnName of
        None \<Rightarrow> ixs
      | Some ix \<Rightarrow>
          (case ix v of
             None \<Rightarrow> ixs
           | Some indices \<Rightarrow>
               (let updatedIndices = filter (\<lambda>i. i \<noteq> rowIndex) indices
                in if updatedIndices = [] then ixs(columnName \<mapsto> ix(v := None))
                   else ixs(columnName \<mapsto> ix(v \<mapsto> updatedIndices)))))"

text \<open>\<open>{ ...this.rows[i] }\<close>: the copy of a position outside the rows is the empty object.\<close>

definition row_at :: "RowData list \<Rightarrow> nat \<Rightarrow> RowData" where
  "row_at rs i = (if i < length rs then rs ! i else [])"

definition findByIndex :: "Table \<Rightarrow> string \<Rightarrow> jsval \<Rightarrow> RowData list" where
  "findByIndex t columnName v =
     (case indexes t columnName of
        None \<Rightarrow> []
      | Some ix \<Rightarrow> (case ix v of None \<Rightarrow> [] | Some indices \<Rightarrow> map (row_at (rows t)) indices))"

text \<open>The check of one column in \<open>validateRow\<close>.  \<open>isSameRow\<close> is the source's name for:
  every row the index gives differs from the data in some property of the data.\<close>

definition isSameRow :: "RowData \<Rightarrow> RowData list \<Rightarrow> bool" where
  "isSameRow d existing =
     list_all (\<lambda>row. list_ex (\<lambda>key. strict_neq (get d key) (get row key)) (keys d)) existing"

definition validateColumn :: "host \<Rightarrow> Table \<Rightarrow> RowData \<Rightarrow> Column \<Rightarrow> validation_error list" where
  "validateColumn h t d c =
     (let v = get d (name c) in
      if \<not> nullable c \<and> (v = Undefined \<or> v = Null) then [ColumnRequired (name c)]
      else
        (if v \<noteq> Undefined \<and> v \<noteq> Null \<and> \<not> validate h c v
         then [InvalidValue (name c) (type c) (typeof v)] else [])
        @
        (if unique c \<and> v \<noteq> Undefined \<and> v \<noteq> Null then
           (let existing = findByIndex t (name c) v in
            if length existing > 0 \<and> \<not> isSameRow d existing
            then [DuplicateValue (name c) v] else [])
         else []))"

definition validateRow :: "host \<Rightarrow> Table \<Rightarrow> RowData \<Rightarrow> validation_error list" where
  "validateRow h t d = concat (map (validateColumn h t d) (columns t))"

text \<open>The new row of \<open>insert\<close>: each supplied value serialized, the default for the others.\<close>

fun build_row :: "host \<Rightarrow> RowData \<Rightarrow> Column list \<Rightarrow> RowData \<Rightarrow> js_error + RowData" where
  "build_row h d [] row = Inr row"
| "build_row h d (c # cs) row =
     (if get d (name c) \<noteq> Undefined then
        (case serialize h c (get d (name c)) of
           Inl e \<Rightarrow> Inl e
         | Inr v \<Rightarrow> build_row h d cs (put row (name c) v))
      else build_row h d cs (put row (name c) (defaultValue c)))"

definition index_row ::
  "Column list \<Rightarrow> RowData \<Rightarrow> nat \<Rightarrow> (string \<Rightarrow> index option) \<Rightarrow> (string \<Rightarrow> index option)" where
  "index_row cols row rowIndex ixs =
     fold (\<lambda>c m. if primaryKey c \<or> unique c then updateIndex m (name c) (get row (name c)) rowIndex
                  else m) cols ixs"

text \<open>\<open>Table.insert\<close>.  The third component tells whether the owner was notified.\<close>

definition insert_row :: "host \<Rightarrow> Table \<Rightarrow> RowData \<Rightarrow> Table \<times> (js_error + insert_result) \<times> bool" where
  "insert_row h t d =
     (let validation = validateRow h t d in
      if validation \<noteq> [] then (t, Inr (Rejected validation), False)
      else case build_row h d (columns t) [] of
        Inl e \<Rightarrow> (t, Inl e, False)
      | Inr row \<Rightarrow>
          (let rowIndex = length (rows t)
           in (t\<lparr>rows := rows t @ [row],
                  indexes := index_row (columns t) row rowIndex (indexes t)\<rparr>,
               Inr (Inserted row), onChange t)))"

definition select :: "Table \<Rightarrow> (RowData \<Rightarrow> bool) option \<Rightarrow> RowData list" where
  "select t wh = (case wh of None \<Rightarrow> rows t | Some p \<Rightarrow> filter p (rows t))"

text \<open>The positions of the rows an optional predicate selects.\<close>

definition matching :: "Table \<Rightarrow> (RowData \<Rightarrow> bool) option \<Rightarrow> nat list" where
  "matching t wh =
     filter (\<lambda>i. case wh of None \<Rightarrow> True | Some p \<Rightarrow> p (rows t ! i)) [0..<length (rows t)]"

text \<open>\<open>Table.delete\<close>: the body of the loop over the positions, then the method.\<close>

definition renumber :: "index \<Rightarrow> nat \<Rightarrow> index" where
  "renumber ix index =
     (\<lambda>v. map_option
        (\<lambda>indices. filter (\<lambda>i. i \<noteq> index) (map (\<lambda>i. if i > index then i - 1 else i) indices))
        (ix v))"

definition delete_at :: "Table \<Rightarrow> nat \<Rightarrow> Table" where
  "delete_at t index =
     (let row = rows t ! index;
          ixs1 = fold (\<lambda>c m. if primaryKey c \<or> unique c
                              then removeFromIndex m (name c) (get row (name c)) index else m)
                   (columns t) (indexes t);
          rows' = take index (rows t) @ drop (Suc index) (rows t);
          ixs2 = fold (\<lambda>c m. if primaryKey c \<or> unique c
                              then (case m (name c) of
                                      Some indexMap \<Rightarrow> m(name c \<mapsto> renumber indexMap index)
                                    | None \<Rightarrow> m)
                              else m)
                   (columns t) ixs1
      in t\<lparr>rows := rows', indexes := ixs2\<rparr>)"

definition delete :: "Table \<Rightarrow> (RowData \<Rightarrow> bool) option \<Rightarrow> Table \<times> delete_result \<times> bool" where
  "delete t wh =
     (let indicesToDelete = rev (sort (matching t wh))
      in (fold (\<lambda>index t'. delete_at t' index) indicesToDelete t,
          \<lparr>deleted_success = True, deleted_rowsAffected = length indicesToDelete\<rparr>,
          length indicesToDelete > 0 \<and> onChange t))"

text \<open>\<open>Table.update\<close>: the updated copy of a row, the processing of one matched row, the
  loop (an exception leaves the table as the rows before it made it), the method.\<close>

fun apply_updates ::
  "host \<Rightarrow> Column list \<Rightarrow> RowData \<Rightarrow> string list \<Rightarrow> RowData \<Rightarrow> js_error + RowData" where
  "apply_updates h cols updates [] updatedRow = Inr updatedRow"
| "apply_updates h cols updates (key # ks) updatedRow =
     (case find (\<lambda>c. name c = key) cols of
        Some column \<Rightarrow>
          if get updates key \<noteq> Undefined then
            (case serialize h column (get updates key) of
               Inl e \<Rightarrow> Inl e
             | Inr v \<Rightarrow> apply_updates h cols updates ks (put updatedRow key v))
          else apply_updates h cols updates ks updatedRow
      | None \<Rightarrow> apply_updates h cols updates ks updatedRow)"

definition changedIndexedColumns :: "Column list \<Rightarrow> RowData \<Rightarrow> RowData \<Rightarrow> (string \<times> jsval \<times> jsval) list" where
  "changedIndexedColumns cols row updatedRow =
     map (\<lambda>c. (name c, get row (name c), get updatedRow (name c)))
       (filter (\<lambda>c. (primaryKey c \<or> unique c)
                  \<and> strict_neq (get row (name c)) (get updatedRow (name c))) cols)"

type_synonym update_state = "Table \<times> nat \<times> (nat \<times> validation_error list) list"

definition update_row ::
  "host \<Rightarrow> RowData \<Rightarrow> nat \<times> RowData \<Rightarrow> update_state \<Rightarrow> js_error + update_state" where
  "update_row h updates ir st =
     (case ir of (index, row) \<Rightarrow> case st of (t, affected, errs) \<Rightarrow>
      case apply_updates h (columns t) updates (keys updates) row of
        Inl e \<Rightarrow> Inl e
      | Inr updatedRow \<Rightarrow>
          (let validation = validateRow h t updatedRow in
           if validation \<noteq> [] then Inr (t, affected, errs @ [(index, validation)])
           else
             (let changed = changedIndexedColumns (columns t) row updatedRow;
                  ixs1 = fold (\<lambda>(n, oldValue, newValue) m. removeFromIndex m n oldValue index)
                           changed (indexes t);
                  rows' = (rows t)[index := updatedRow];
                  ixs2 = fold (\<lambda>(n, oldValue, newValue) m. updateIndex m n newValue index)
                           changed ixs1
              in Inr (t\<lparr>rows := rows', indexes := ixs2\<rparr>, Suc affected, errs))))"

fun update_loop ::
  "host \<Rightarrow> RowData \<Rightarrow> (nat \<times> RowData) list \<Rightarrow> update_state \<Rightarrow> update_state \<times> js_error option" where
  "update_loop h updates [] st = (st, None)"
| "update_loop h updates (ir # irs) st =
     (case update_row h updates ir st of
        Inl e \<Rightarrow> (st, Some e)
      | Inr st' \<Rightarrow> update_loop h updates irs st')"

definition update ::
  "host \<Rightarrow> Table \<Rightarrow> RowData \<Rightarrow> (RowData \<Rightarrow> bool) option
     \<Rightarrow> Table \<times> (js_error + update_result) \<times> bool" where
  "update h t updates wh =
     (let rowsToUpdate = map (\<lambda>i. (i, rows t ! i)) (matching t wh)
      in case update_loop h updates rowsToUpdate (t, 0, []) of
        ((t', affected, errs), Some e) \<Rightarrow> (t', Inl e, False)
      | ((t', affected, errs), None) \<Rightarrow>
          (t',
           Inr \<lparr>success = (length errs = 0), rowsAffected = affected,
                errors = (if length errs > 0 then Some errs else None)\<rparr>,
           affected > 0 \<and> onChange t))"


section \<open>FileQueue\<close>

text \<open>
  The queue writes its jobs one at a time from callbacks of the event loop.  The model is a
  state machine: the fields of the class, the callbacks that are pending (a write in
  flight, a retry timer, a \<open>setImmediate\<close>), and the events that run them.  An item is the
  object \<open>{ filePath, data }\<close>; \<open>jid\<close> is its identity, a serial number \<open>enqueue\<close> gives
  it.  Three fields record the history for the statements about it: how often the write of
  an item was started, how often an item was put back at the front, and the items written
  and dropped.
\<close>

record 'd item =
  filePath :: string
  data :: 'd
  jid :: nat

record 'd FileQueue =
  queue :: "'d item list"
  isProcessing :: bool
  retryAttempts :: "string \<Rightarrow> nat option"
  writing :: "'d item list"      \<comment> \<open>writes awaited by \<open>processQueue\<close>\<close>
  timers :: "'d item list"       \<comment> \<open>items held by a pending \<open>setTimeout\<close>\<close>
  immediates :: nat              \<comment> \<open>pending \<open>setImmediate(() => this.processQueue())\<close>\<close>
  next_jid :: nat
  attempts :: "nat \<Rightarrow> nat"      \<comment> \<open>history: writes started, by item\<close>
  requeued :: "nat \<Rightarrow> nat"      \<comment> \<open>history: times put back at the front, by item\<close>
  written :: "'d item list"      \<comment> \<open>history: items written\<close>
  dropped :: "'d item list"      \<comment> \<open>history: items given up\<close>

definition MAX_RETRIES :: nat where
  "MAX_RETRIES = 3"

definition new_FileQueue :: "'d FileQueue" where
  "new_FileQueue =
     \<lparr>queue = [], isProcessing = False, retryAttempts = Map.empty, writing = [], timers = [],
      immediates = 0, next_jid = 0, attempts = (\<lambda>_. 0), requeued = (\<lambda>_. 0), written = [],
      dropped = []\<rparr>"

text \<open>\<open>processQueue\<close> up to its first \<open>await\<close>: an empty queue ends the processing, otherwise
  the head is taken and its write started.\<close>

definition processQueue :: "'d FileQueue \<Rightarrow> 'd FileQueue" where
  "processQueue s =
     (case queue s of
        [] \<Rightarrow> s\<lparr>isProcessing := False\<rparr>
      | it # rest \<Rightarrow>
          s\<lparr>isProcessing := True, queue := rest, writing := writing s @ [it],
            attempts := (attempts s)(jid it := Suc (attempts s (jid it)))\<rparr>)"

definition enqueue :: "string \<Rightarrow> 'd \<Rightarrow> 'd FileQueue \<Rightarrow> 'd FileQueue" where
  "enqueue fp d s =
     (let s1 = s\<lparr>queue := queue s @ [\<lparr>filePath = fp, data = d, jid = next_jid s\<rparr>],
                  next_jid := Suc (next_jid s)\<rparr>
      in if \<not> isProcessing s1 then processQueue s1 else s1)"

text \<open>The rest of \<open>processQueue\<close> after a write that succeeded, and the \<open>catch\<close> block after
  one that failed.\<close>

definition write_succeeded :: "'d item \<Rightarrow> 'd FileQueue \<Rightarrow> 'd FileQueue" where
  "write_succeeded it s =
     s\<lparr>writing := remove1 it (writing s),
       retryAttempts := (retryAttempts s)(filePath it := None),
       written := written s @ [it],
       immediates := Suc (immediates s)\<rparr>"

definition write_failed :: "'d item \<Rightarrow> 'd FileQueue \<Rightarrow> 'd FileQueue" where
  "write_failed it s =
     (let retryCount = (case retryAttempts s (filePath it) of Some n \<Rightarrow> n | None \<Rightarrow> 0)
      in if retryCount < MAX_RETRIES then
           s\<lparr>writing := remove1 it (writing s),
             retryAttempts := (retryAttempts s)(filePath it \<mapsto> retryCount + 1),
             timers := timers s @ [it]\<rparr>
         else
           s\<lparr>writing := remove1 it (writing s),
             retryAttempts := (retryAttempts s)(filePath it := None),
             dropped := dropped s @ [it],
             immediates := Suc (immediates s)\<rparr>)"

text \<open>The callback of the retry timer: the item goes back to the front, then
  \<open>processQueue\<close>.\<close>

definition timer_fired :: "'d item \<Rightarrow> 'd FileQueue \<Rightarrow> 'd FileQueue" where
  "timer_fired it s =
     processQueue
       (s\<lparr>timers := remove1 it (timers s), queue := it # queue s,
          requeued := (requeued s)(jid it := Suc (requeued s (jid it)))\<rparr>)"

definition immediate_fired :: "'d FileQueue \<Rightarrow> 'd FileQueue" where
  "immediate_fired s = processQueue (s\<lparr>immediates := immediates s - 1\<rparr>)"

definition clear :: "'d FileQueue \<Rightarrow> 'd FileQueue" where
  "clear s = s\<lparr>queue := [], retryAttempts := Map.empty\<rparr>"

definition getQueueLength :: "'d FileQueue \<Rightarrow> nat" where
  "getQueueLength s = length (queue s)"

text \<open>What happens to a queue: a caller enqueues a job, the write in flight succeeds or
  fails, a timer or a \<open>setImmediate\<close> callback runs.  An event that names something not
  pending changes nothing.  (\<open>clear\<close> is called nowhere in the repository and is not an
  event.)\<close>

datatype 'd event =
    Enqueue string 'd
  | WriteOk nat
  | WriteFail nat
  | TimerFires nat
  | ImmediateFires

definition step :: "'d event \<Rightarrow> 'd FileQueue \<Rightarrow> 'd FileQueue" where
  "step e s = (case e of
       Enqueue fp d \<Rightarrow> enqueue fp d s
     | WriteOk i \<Rightarrow>
         (case List.find (\<lambda>it. jid it = i) (writing s) of
            Some it \<Rightarrow> write_succeeded it s | None \<Rightarrow> s)
     | WriteFail i \<Rightarrow>
         (case List.find (\<lambda>it. jid it = i) (writing s) of
            Some it \<Rightarrow> write_failed it s | None \<Rightarrow> s)
     | TimerFires i \<Rightarrow>
         (case List.find (\<lambda>it. jid it = i) (timers s) of
            Some it \<Rightarrow> timer_fired it s | None \<Rightarrow> s)
     | ImmediateFires \<Rightarrow> if immediates s > 0 then immediate_fired s else s)"

definition run :: "'d event list \<Rightarrow> 'd FileQueue \<Rightarrow> 'd FileQueue" where
  "run es s = fold step es s"


section \<open>Database\<close>

text \<open>A column as a caller of \<open>createTable\<close> or a snapshot describes it (\<open>ColumnDefinition\<close>);
  every property but the name and the type may be missing.  The schema of a table and the
  snapshot of a database are the objects \<open>getSchema\<close> and \<open>toJSON\<close> build.\<close>

record ColumnDefinition =
  def_name :: string
  def_type :: string
  def_primaryKey :: "bool option"
  def_unique :: "bool option"
  def_nullable :: "bool option"
  def_defaultValue :: jsval

record TableSchema =
  schema_name :: string
  schema_columns :: "ColumnDefinition list"
  rowCount :: nat

record TableData =
  saved_name :: string
  saved_schema :: TableSchema
  saved_rows :: "RowData list option"

record Snapshot =
  snapshot_name :: string
  snapshot_version :: string
  snapshot_timestamp :: string
  snapshot_tables :: "TableData list option"

record Database =
  database_name :: string
  dbFilePath :: string
  tables :: "(string \<times> Table) list"
  isInitializing :: bool
  fileQueue :: "Snapshot FileQueue"

definition getSchema :: "Table \<Rightarrow> TableSchema" where
  "getSchema t =
     \<lparr>schema_name = table_name t,
      schema_columns =
        map (\<lambda>col. \<lparr>def_name = name col, def_type = type col,
                     def_primaryKey = Some (primaryKey col), def_unique = Some (unique col),
                     def_nullable = Some (nullable col), def_defaultValue = defaultValue col\<rparr>)
          (columns t),
      rowCount = length (rows t)\<rparr>"

text \<open>The constructor before \<open>initializeStorage\<close>; the data directory is part of the path.\<close>

definition new_Database :: "string \<Rightarrow> Database" where
  "new_Database n =
     \<lparr>database_name = n, dbFilePath = ''data/'' @ n @ ''.json'', tables = [],
      isInitializing = False, fileQueue = new_FileQueue\<rparr>"

definition toJSON :: "host \<Rightarrow> Database \<Rightarrow> Snapshot" where
  "toJSON h db =
     \<lparr>snapshot_name = database_name db, snapshot_version = ''1.0'',
      snapshot_timestamp = Date_toISOString h (Date_now h),
      snapshot_tables =
        Some (map (\<lambda>(n, t). \<lparr>saved_name = n, saved_schema = getSchema t,
                               saved_rows = Some (select t None)\<rparr>) (tables db))\<rparr>"

definition saveToFile :: "host \<Rightarrow> Database \<Rightarrow> Database" where
  "saveToFile h db =
     (if isInitializing db then db
      else db\<lparr>fileQueue := enqueue (dbFilePath db) (toJSON h db) (fileQueue db)\<rparr>)"

text \<open>The callback a table of the database gets: a table operation that notified its owner
  is followed by \<open>saveToFile\<close>.\<close>

definition notified :: "host \<Rightarrow> bool \<Rightarrow> Database \<Rightarrow> Database" where
  "notified h changed db = (if changed then saveToFile h db else db)"

definition tables_has :: "Database \<Rightarrow> string \<Rightarrow> bool" where
  "tables_has db n = (n \<in> set (map fst (tables db)))"

text \<open>The error \<open>createTable\<close> throws: \<open>Table 'name' already exists\<close>.\<close>

definition DuplicateTableError :: "string \<Rightarrow> js_error" where
  "DuplicateTableError tableName =
     Error (''Table '' @ [CHR 0x27] @ tableName @ [CHR 0x27] @ '' already exists'')"

definition createTable ::
  "host \<Rightarrow> Database \<Rightarrow> string \<Rightarrow> ColumnDefinition list \<Rightarrow> js_error + Database" where
  "createTable h db tableName cols =
     (if tables_has db tableName
      then Inl (DuplicateTableError tableName)
      else
        (let tableColumns =
               map (\<lambda>col. new_Column (def_name col) (def_type col)
                             (Some (case def_primaryKey col of Some b \<Rightarrow> b | None \<Rightarrow> False))
                             (Some (case def_unique col of Some b \<Rightarrow> b | None \<Rightarrow> False))
                             None Undefined) cols;
             primaryKeyColumn =
               map_option def_name (List.find (\<lambda>col. def_primaryKey col = Some True) cols);
             table = new_Table tableName tableColumns primaryKeyColumn True
         in Inr (saveToFile h (db\<lparr>tables := put (tables db) tableName table\<rparr>))))"

definition dropTable :: "host \<Rightarrow> Database \<Rightarrow> string \<Rightarrow> Database \<times> bool" where
  "dropTable h db tableName =
     (if tables_has db tableName
      then (saveToFile h (db\<lparr>tables := filter (\<lambda>(n, t). n \<noteq> tableName) (tables db)\<rparr>), True)
      else (db, False))"

definition getTable :: "Database \<Rightarrow> string \<Rightarrow> Table option" where
  "getTable db tableName = map_of (tables db) tableName"

definition listTables :: "Database \<Rightarrow> string list" where
  "listTables db = map fst (tables db)"

text \<open>\<open>insertWithoutNotify\<close>: the steps of \<open>Table.insert\<close> without the notification; the
  result is the table and the validation errors of a row that was refused.\<close>

definition insertWithoutNotify ::
  "host \<Rightarrow> Table \<Rightarrow> RowData \<Rightarrow> js_error + Table \<times> validation_error list option" where
  "insertWithoutNotify h t rowData =
     (let validation = validateRow h t rowData in
      if validation \<noteq> [] then Inr (t, Some validation)
      else case build_row h rowData (columns t) [] of
        Inl e \<Rightarrow> Inl e
      | Inr row \<Rightarrow>
          (let rowIndex = length (rows t)
           in Inr (t\<lparr>rows := rows t @ [row],
                      indexes := index_row (columns t) row rowIndex (indexes t)\<rparr>, None)))"

text \<open>The loop over the saved rows: a refused row is logged and skipped, an exception ends
  the loop.\<close>

fun restore_rows :: "host \<Rightarrow> Table \<Rightarrow> RowData list \<Rightarrow> js_error + Table" where
  "restore_rows h t [] = Inr t"
| "restore_rows h t (rowData # rs) =
     (case insertWithoutNotify h t rowData of
        Inl e \<Rightarrow> Inl e
      | Inr (t', result) \<Rightarrow> restore_rows h t' rs)"

text \<open>The body of the loop over the saved tables, inside its \<open>try\<close>: the table that is
  registered, or the exception that is caught (the table is then skipped).\<close>

definition restore_table :: "host \<Rightarrow> TableData \<Rightarrow> js_error + Table" where
  "restore_table h tableData =
     (let colDatas = schema_columns (saved_schema tableData);
          cols = map (\<lambda>colData.
                   new_Column (def_name colData) (def_type colData)
                     (Some (case def_primaryKey colData of Some b \<Rightarrow> b | None \<Rightarrow> False))
                     (Some (case def_unique colData of Some b \<Rightarrow> b | None \<Rightarrow> False))
                     (Some (case def_nullable colData of Some b \<Rightarrow> b | None \<Rightarrow> True))
                     (def_defaultValue colData)) colDatas;
          table = new_Table (saved_name tableData) cols
                    (map_option def_name (List.find (\<lambda>c. def_primaryKey c = Some True) colDatas))
                    False
      in case saved_rows tableData of
           None \<Rightarrow> Inr table
         | Some rs \<Rightarrow> map_sum id (\<lambda>t. t\<lparr>onChange := True\<rparr>) (restore_rows h table rs))"

definition restoreFromData :: "host \<Rightarrow> Database \<Rightarrow> Snapshot option \<Rightarrow> Database" where
  "restoreFromData h db savedData =
     (case savedData of
        None \<Rightarrow> db
      | Some sd \<Rightarrow>
          (case snapshot_tables sd of
             None \<Rightarrow> db
           | Some tds \<Rightarrow>
               fold (\<lambda>tableData db'.
                       case restore_table h tableData of
                         Inl e \<Rightarrow> db'
                       | Inr table \<Rightarrow> db'\<lparr>tables := put (tables db') (saved_name tableData) table\<rparr>)
                 tds db))"

text \<open>\<open>loadFromFile\<close> and \<open>initializeStorage\<close>.  The file is an input: \<open>None\<close> when it does not
  exist or cannot be read or parsed, the parsed snapshot otherwise.\<close>

definition loadFromFile :: "host \<Rightarrow> Database \<Rightarrow> Snapshot option \<Rightarrow> Database" where
  "loadFromFile h db file = (case file of None \<Rightarrow> db | Some sd \<Rightarrow> restoreFromData h db (Some sd))"

definition initializeStorage :: "host \<Rightarrow> Database \<Rightarrow> Snapshot option \<Rightarrow> Database" where
  "initializeStorage h db file =
     (loadFromFile h (db\<lparr>isInitializing := True\<rparr>) file)\<lparr>isInitializing := False\<rparr>"

text \<open>What \<open>JSON.parse(JSON.stringify(x))\<close> makes of a value, an object and a snapshot: a
  number that is not finite becomes \<open>null\<close>, a property that is \<open>undefined\<close> is left out.\<close>

definition json_value :: "jsval \<Rightarrow> jsval" where
  "json_value v = (case v of Num (Fin q) \<Rightarrow> v | Num _ \<Rightarrow> Null | _ \<Rightarrow> v)"

definition json_object :: "RowData \<Rightarrow> RowData" where
  "json_object d = map (\<lambda>(k, v). (k, json_value v)) (filter (\<lambda>(k, v). v \<noteq> Undefined) d)"

definition json_snapshot :: "Snapshot \<Rightarrow> Snapshot" where
  "json_snapshot sd =
     sd\<lparr>snapshot_tables :=
          map_option (map (\<lambda>td.
              td\<lparr>saved_schema :=
                     (saved_schema td)\<lparr>schema_columns :=
                        map (\<lambda>c. c\<lparr>def_defaultValue := json_value (def_defaultValue c)\<rparr>)
                          (schema_columns (saved_schema td))\<rparr>,
                 saved_rows := map_option (map json_object) (saved_rows td)\<rparr>))
            (snapshot_tables sd)\<rparr>"

text \<open>How the request handlers use a table: \<open>db.getTable(name)\<close>, then the operation on the
  table object, whose notification runs \<open>saveToFile\<close> of the database.  Here for \<open>insert\<close>;
  \<open>None\<close> is the answer for an unknown table.\<close>

definition insert_into ::
  "host \<Rightarrow> Database \<Rightarrow> string \<Rightarrow> RowData \<Rightarrow> Database \<times> (js_error + insert_result) option" where
  "insert_into h db tableName body =
     (case getTable db tableName of
        None \<Rightarrow> (db, None)
      | Some t \<Rightarrow>
          (case insert_row h t body of
             (t', result, changed) \<Rightarrow>
               (notified h changed (db\<lparr>tables := put (tables db) tableName t'\<rparr>), Some result)))"


section \<open>Notions for the proofs\<close>

text \<open>The positions an index holds for a value of a column, and the effect of the
  renumbering of \<open>delete\<close> on them.\<close>

definition entries :: "(string \<Rightarrow> index option) \<Rightarrow> string \<Rightarrow> jsval \<Rightarrow> nat set" where
  "entries ixs k v =
     (case ixs k of None \<Rightarrow> {} | Some ix \<Rightarrow> (case ix v of None \<Rightarrow> {} | Some indices \<Rightarrow> set indices))"

definition renumbered :: "nat \<Rightarrow> nat set \<Rightarrow> nat set" where
  "renumbered p S = (\<lambda>i. if i > p then i - 1 else i) ` S - {p}"

text \<open>The retry counter of a destination (\<open>retryAttempts.get(filePath) || 0\<close>), the items
  the queue still has to deal with, and the invariant of the queue: every item is in one
  place, the counters of the items agree with the retry counter of the destination that is
  being written, and the queue is in one of four phases: idle, between two jobs (a
  \<open>setImmediate\<close> is pending), writing one item, or waiting for the retry timer of one
  item.\<close>

definition retryCount :: "'d FileQueue \<Rightarrow> string \<Rightarrow> nat" where
  "retryCount s fp = (case retryAttempts s fp of Some n \<Rightarrow> n | None \<Rightarrow> 0)"

definition pending :: "'d FileQueue \<Rightarrow> 'd item list" where
  "pending s = queue s @ writing s @ timers s"

definition tidy :: "'d FileQueue \<Rightarrow> bool" where
  "tidy s \<longleftrightarrow>
     distinct (map jid (pending s @ written s @ dropped s))
   \<and> (\<forall>it\<in>set (pending s @ written s @ dropped s). jid it < next_jid s)
   \<and> (\<forall>i. next_jid s \<le> i \<longrightarrow> attempts s i = 0 \<and> requeued s i = 0)
   \<and> (\<forall>i. i \<notin> jid ` set (pending s @ written s @ dropped s) \<longrightarrow>
         attempts s i = 0 \<and> requeued s i = 0)
   \<and> (\<forall>it\<in>set (queue s). attempts s (jid it) = 0 \<and> requeued s (jid it) = 0)
   \<and> (\<forall>it\<in>set (written s @ dropped s).
         attempts s (jid it) \<le> MAX_RETRIES + 1 \<and> requeued s (jid it) \<le> MAX_RETRIES)"

definition idle :: "'d FileQueue \<Rightarrow> bool" where
  "idle s \<longleftrightarrow> \<not> isProcessing s \<and> queue s = [] \<and> writing s = [] \<and> timers s = []
     \<and> immediates s = 0 \<and> retryAttempts s = Map.empty"

definition between :: "'d FileQueue \<Rightarrow> bool" where
  "between s \<longleftrightarrow> isProcessing s \<and> writing s = [] \<and> timers s = []
     \<and> immediates s = 1 \<and> retryAttempts s = Map.empty"

definition in_flight :: "'d FileQueue \<Rightarrow> 'd item \<Rightarrow> bool" where
  "in_flight s it \<longleftrightarrow> isProcessing s \<and> writing s = [it] \<and> timers s = [] \<and> immediates s = 0
     \<and> (\<forall>fp. fp \<noteq> filePath it \<longrightarrow> retryAttempts s fp = None)
     \<and> retryCount s (filePath it) \<le> MAX_RETRIES
     \<and> attempts s (jid it) = retryCount s (filePath it) + 1
     \<and> requeued s (jid it) = retryCount s (filePath it)"

definition waiting :: "'d FileQueue \<Rightarrow> 'd item \<Rightarrow> bool" where
  "waiting s it \<longleftrightarrow> isProcessing s \<and> writing s = [] \<and> timers s = [it] \<and> immediates s = 0
     \<and> (\<forall>fp. fp \<noteq> filePath it \<longrightarrow> retryAttempts s fp = None)
     \<and> 0 < retryCount s (filePath it) \<and> retryCount s (filePath it) \<le> MAX_RETRIES
     \<and> attempts s (jid it) = retryCount s (filePath it)
     \<and> requeued s (jid it) + 1 = retryCount s (filePath it)"

definition fq_inv :: "'d FileQueue \<Rightarrow> bool" where
  "fq_inv s \<longleftrightarrow> tidy s \<and> (idle s \<or> between s \<or> (\<exists>it. in_flight s it) \<or> (\<exists>it. waiting s it))"


section \<open>Example data\<close>

text \<open>A host whose clock stands at the epoch and which reads no date string but the ISO
  string of the epoch; the tables of the examples have no \<open>DATE\<close> column.\<close>

definition plain_host :: host where
  "plain_host =
     \<lparr>Date_parse = (\<lambda>s. if s = ''1970-01-01T00:00:00.000Z'' then Fin 0 else NaN),
      Date_toISOString = (\<lambda>t. ''1970-01-01T00:00:00.000Z''),
      Date_now = 0\<rparr>"

definition integer_column :: Column where
  "integer_column = new_Column ''n'' ''INTEGER'' None None None Undefined"

text \<open>The words of the specification for the \<open>INTEGER\<close> type: an integral numeric value, that
  is a number with no fractional part.\<close>

definition is_integral_number :: "jsval \<Rightarrow> bool" where
  "is_integral_number v = (case v of Num n \<Rightarrow> Number_isInteger n | _ \<Rightarrow> False)"

text \<open>A table \<open>users\<close> with a unique \<open>id\<close>, holding one row.\<close>

definition users_columns :: "Column list" where
  "users_columns =
     [new_Column ''id'' ''INTEGER'' (Some False) (Some True) None Undefined,
      new_Column ''name'' ''STRING'' (Some False) (Some False) None Undefined]"

definition user :: "rat \<Rightarrow> string \<Rightarrow> RowData" where
  "user i n = [(''id'', Num (Fin i)), (''name'', Str n)]"

definition users_0 :: Table where
  "users_0 = new_Table ''users'' users_columns None True"

definition users_1 :: Table where
  "users_1 = fst (insert_row plain_host users_0 (user 1 ''a''))"

text \<open>A table \<open>keyed\<close> whose \<open>id\<close> is the primary key and not flagged unique, holding one
  row.\<close>

definition keyed_columns :: "Column list" where
  "keyed_columns = [new_Column ''id'' ''INTEGER'' (Some True) (Some False) None Undefined]"

definition keyed_0 :: Table where
  "keyed_0 = new_Table ''keyed'' keyed_columns (Some ''id'') True"

definition keyed_1 :: Table where
  "keyed_1 = fst (insert_row plain_host keyed_0 [(''id'', Num (Fin 1))])"

definition id_is :: "rat \<Rightarrow> RowData \<Rightarrow> bool" where
  "id_is i row = (\<not> strict_neq (get row ''id'') (Num (Fin i)))"

text \<open>A table \<open>jobs\<close> of five rows; the rows at positions 1, 3 and 4 have the status
  \<open>old\<close>.\<close>

definition jobs_columns :: "Column list" where
  "jobs_columns =
     [new_Column ''id'' ''INTEGER'' (Some True) (Some True) None Undefined,
      new_Column ''status'' ''STRING'' (Some False) (Some False) None Undefined]"

definition job :: "rat \<Rightarrow> string \<Rightarrow> RowData" where
  "job i s = [(''id'', Num (Fin i)), (''status'', Str s)]"

definition jobs_5 :: Table where
  "jobs_5 = fold (\<lambda>d t. fst (insert_row plain_host t d))
      [job 10 ''new'', job 11 ''old'', job 12 ''new'', job 13 ''old'', job 14 ''old'']
      (new_Table ''jobs'' jobs_columns (Some ''id'') True)"

definition is_old :: "RowData \<Rightarrow> bool" where
  "is_old row = (\<not> strict_neq (get row ''status'') (Str ''old''))"

text \<open>Column definitions as a caller of \<open>createTable\<close> may give them: one of a type that is
  none of the five, one that asks for a required column with a default.\<close>

definition blob_definition :: ColumnDefinition where
  "blob_definition =
     \<lparr>def_name = ''payload'', def_type = ''BLOB'', def_primaryKey = None, def_unique = None,
      def_nullable = None, def_defaultValue = Undefined\<rparr>"


definition the_five_types :: "string set" where
  "the_five_types = {''INTEGER'', ''FLOAT'', ''STRING'', ''BOOLEAN'', ''DATE''}"

definition empty_database :: Database where
  "empty_database = new_Database ''pesapal_db''"

text \<open>Databases made by \<open>createTable\<close> from the empty one.\<close>

definition users_database :: Database where
  "users_database = projr (createTable plain_host empty_database ''users'' [])"


definition blob_column :: Column where
  "blob_column = new_Column ''payload'' ''BLOB'' (Some False) (Some False) None Undefined"

text \<open>The empty table \<open>jobs\<close>, and the table after the insert of the row with \<open>id\<close> 1.\<close>

definition jobs_0 :: Table where
  "jobs_0 = new_Table ''jobs'' jobs_columns (Some ''id'') True"

definition jobs_1 :: Table where
  "jobs_1 = fst (insert_row plain_host jobs_0 (job 1 ''new''))"

text \<open>Two jobs and a history of the queue: the first job is enqueued, then the second; the
  write of the first fails four times, with its retry timer running in between.\<close>

definition job_a :: "nat item" where
  "job_a = \<lparr>filePath = ''a.json'', data = 1, jid = 0\<rparr>"

definition job_b :: "nat item" where
  "job_b = \<lparr>filePath = ''b.json'', data = 2, jid = 1\<rparr>"

definition both_enqueued :: "nat FileQueue" where
  "both_enqueued = run [Enqueue ''a.json'' 1, Enqueue ''b.json'' 2] new_FileQueue"

definition failed_once :: "nat FileQueue" where
  "failed_once = run [Enqueue ''a.json'' 1, Enqueue ''b.json'' 2, WriteFail 0] new_FileQueue"

definition fourth_attempt :: "nat FileQueue" where
  "fourth_attempt =
     run [Enqueue ''a.json'' 1, Enqueue ''b.json'' 2, WriteFail 0, TimerFires 0, WriteFail 0,
          TimerFires 0, WriteFail 0, TimerFires 0] new_FileQueue"

definition failed_four_times :: "nat FileQueue" where
  "failed_four_times =
     run [Enqueue ''a.json'' 1, Enqueue ''b.json'' 2, WriteFail 0, TimerFires 0, WriteFail 0,
          TimerFires 0, WriteFail 0, TimerFires 0, WriteFail 0] new_FileQueue"

text \<open>A database with the table \<open>codes\<close>, whose column \<open>code\<close> is unique, after the inserts
  of the number 1 and of the string \<open>"1"\<close>; its snapshot as read back from the file; the
  database a new process restores from it.\<close>

definition code_definition :: ColumnDefinition where
  "code_definition =
     \<lparr>def_name = ''code'', def_type = ''INTEGER'', def_primaryKey = None, def_unique = Some True,
      def_nullable = None, def_defaultValue = Undefined\<rparr>"

definition codes_database :: Database where
  "codes_database =
     fst (insert_into plain_host
       (fst (insert_into plain_host
          (projr (createTable plain_host empty_database ''codes'' [code_definition]))
          ''codes'' [(''code'', Num (Fin 1))]))
       ''codes'' [(''code'', Str ''1'')])"

definition codes_snapshot :: Snapshot where
  "codes_snapshot = json_snapshot (toJSON plain_host codes_database)"

definition codes_restored :: Database where
  "codes_restored = initializeStorage plain_host (new_Database ''pesapal_db'') (Some codes_snapshot)"


section \<open>Column.validate\<close>

lemma type_integer_column: "type integer_column = ''INTEGER''"
  by (simp add: integer_column_def new_Column_def)

lemma Number_isInteger_42: "Number_isInteger (ToNumber (Str ''42''))"
  by code_simp

text \<open>
  C9, as stated: an \<open>INTEGER\<close> column accepts a present value exactly when it is a number
  without fractional part, and rejects numeric strings and booleans.  The code converts the
  value with \<open>Number\<close> first, so the boolean \<open>true\<close> and the string \<open>"42"\<close> are accepted
  although neither is a number.
\<close>

theorem validate_INTEGER_counterexample:
  "validate plain_host integer_column (Bool True) \<and> \<not> is_integral_number (Bool True)
   \<and> validate plain_host integer_column (Str ''42'') \<and> \<not> is_integral_number (Str ''42'')"
  by code_simp

text \<open>
  C9, amended: for an \<open>INTEGER\<close> column and a value that is neither \<open>null\<close> nor \<open>undefined\<close>,
  \<open>validate\<close> returns true exactly when \<open>Number(value)\<close> is an integer.  So a number is
  accepted exactly when it has no fractional part, every boolean is accepted, and a string
  is accepted exactly when \<open>Number\<close> reads it as an integer.
\<close>

theorem validate_INTEGER_converts:
  assumes "type c = ''INTEGER''" and "v \<noteq> Null" and "v \<noteq> Undefined"
  shows "(validate h c v \<longleftrightarrow> Number_isInteger (ToNumber v))
       \<and> (validate h c (Num n) \<longleftrightarrow> is_integral_number (Num n))
       \<and> validate h c (Bool b)
       \<and> (validate h c (Str s) \<longleftrightarrow> Number_isInteger (StringToNumber s))"
  using assms by (simp add: validate_def is_integral_number_def ToNumber_def Number_isInteger_def)

theorem validate_INTEGER_converts_witness:
  "type integer_column = ''INTEGER'' \<and> Str ''42'' \<noteq> Null \<and> Str ''42'' \<noteq> Undefined
   \<and> validate plain_host integer_column (Str ''42'')"
proof -
  have present: "Str ''42'' \<noteq> Null" "Str ''42'' \<noteq> Undefined"
    by simp_all
  have "validate plain_host integer_column (Str ''42'') \<longleftrightarrow> Number_isInteger (ToNumber (Str ''42''))"
    by (rule validate_INTEGER_converts [OF type_integer_column present, THEN conjunct1])
  then show ?thesis
    using Number_isInteger_42 type_integer_column by simp
qed

section \<open>Uniqueness on insert and update\<close>

text \<open>
  C1: an insert whose value in a unique column equals the value of an existing row is
  refused with a duplicate error, and the table keeps its rows.  The code at an input where
  it does otherwise: \<open>users_1\<close> holds the row with \<open>id\<close> 1 and name \<open>a\<close>; inserting \<open>id\<close> 1
  with name \<open>b\<close> succeeds, the table then has two rows and the index of \<open>id\<close> gives both
  for the value 1.  (\<open>validateRow\<close> reports the duplicate only when an indexed row agrees
  with the new data in every property.)
\<close>

theorem insert_duplicate_unique_accepted:
  "rows users_1 = [user 1 ''a'']
   \<and> findByIndex users_1 ''id'' (Num (Fin 1)) = [user 1 ''a'']
   \<and> fst (snd (insert_row plain_host users_1 (user 1 ''b''))) = Inr (Inserted (user 1 ''b''))
   \<and> rows (fst (insert_row plain_host users_1 (user 1 ''b''))) = [user 1 ''a'', user 1 ''b'']
   \<and> findByIndex (fst (insert_row plain_host users_1 (user 1 ''b''))) ''id'' (Num (Fin 1))
       = [user 1 ''a'', user 1 ''b'']"
  by code_simp

text \<open>
  C3: an update that leaves the unique columns of a matched row as they are reports no
  duplicate for that row and updates it.  The code at an input where it does otherwise:
  assigning the name \<open>a\<close> to the only row of \<open>users_1\<close>, which has that name, is refused as
  a duplicate of \<open>id\<close> 1 and no row is updated.  (The row is found through the index and
  agrees with its updated copy in every property.)
\<close>

theorem update_same_value_rejected:
  "rows users_1 = [user 1 ''a'']
   \<and> validateRow plain_host users_1 (user 1 ''a'') = [DuplicateValue ''id'' (Num (Fin 1))]
   \<and> fst (snd (update plain_host users_1 [(''name'', Str ''a'')] None))
       = Inr \<lparr>success = False, rowsAffected = 0,
              errors = Some [(0, [DuplicateValue ''id'' (Num (Fin 1))])]\<rparr>"
  by code_simp

text \<open>
  C4: a second row with the value of an existing row in a column flagged \<open>primaryKey\<close> is
  refused.  The code at an input where it does otherwise: \<open>keyed_1\<close> holds the row with
  \<open>id\<close> 1 in a primary key column that is not flagged unique; inserting \<open>id\<close> 1 again passes
  \<open>validateRow\<close> and succeeds, and the index of \<open>id\<close> then maps 1 to the positions 0 and 1.
\<close>

theorem insert_duplicate_primaryKey_accepted:
  "rows keyed_1 = [[(''id'', Num (Fin 1))]]
   \<and> validateRow plain_host keyed_1 [(''id'', Num (Fin 1))] = []
   \<and> fst (snd (insert_row plain_host keyed_1 [(''id'', Num (Fin 1))]))
       = Inr (Inserted [(''id'', Num (Fin 1))])
   \<and> (case indexes (fst (insert_row plain_host keyed_1 [(''id'', Num (Fin 1))])) ''id'' of
         Some ix \<Rightarrow> ix (Num (Fin 1)) | None \<Rightarrow> None) = Some [0, 1]"
  by code_simp

section \<open>Indexes after delete\<close>

text \<open>
  C2: after a delete the indexes give every remaining row at its new position.  The code
  at the input of the claim: deleting the rows with status \<open>old\<close> of \<open>jobs_5\<close> (positions 1,
  3 and 4) leaves the rows with \<open>id\<close> 10 and 12; the index still gives the row with \<open>id\<close> 10
  and gives nothing for \<open>id\<close> 12, which moved from position 2 to position 1.  (After the
  positions above the deleted one are decremented, the entries equal to the deleted
  position are filtered out, and these are the entries of the row that followed it.)
\<close>

theorem delete_loses_index_entry:
  "rows jobs_5 = [job 10 ''new'', job 11 ''old'', job 12 ''new'', job 13 ''old'', job 14 ''old'']
   \<and> matching jobs_5 (Some is_old) = [1, 3, 4]
   \<and> findByIndex jobs_5 ''id'' (Num (Fin 12)) = [job 12 ''new'']
   \<and> rows (fst (delete jobs_5 (Some is_old))) = [job 10 ''new'', job 12 ''new'']
   \<and> findByIndex (fst (delete jobs_5 (Some is_old))) ''id'' (Num (Fin 10)) = [job 10 ''new'']
   \<and> findByIndex (fst (delete jobs_5 (Some is_old))) ''id'' (Num (Fin 12)) = []"
  by code_simp


section \<open>Objects and the table registry\<close>



lemma keys_put_new: "k \<notin> set (map fst xs) \<Longrightarrow> map fst (put xs k v) = map fst xs @ [k]"
  by (induction xs) auto

lemma tables_saveToFile: "tables (saveToFile h db) = tables db"
  by (simp add: saveToFile_def)

section \<open>createTable\<close>

text \<open>
  C8, as stated: \<open>createTable\<close> fails for a registered name, and fails when a column
  definition names a type outside \<open>INTEGER\<close>, \<open>FLOAT\<close>, \<open>STRING\<close>, \<open>BOOLEAN\<close>, \<open>DATE\<close>.  The
  code does not look at the types: creating a table with a column of type \<open>BLOB\<close> in the
  empty database succeeds and registers the table.
\<close>

theorem createTable_unknown_type_counterexample:
  "def_type blob_definition \<notin> the_five_types
   \<and> \<not> isl (createTable plain_host empty_database ''files'' [blob_definition])
   \<and> listTables (projr (createTable plain_host empty_database ''files'' [blob_definition]))
       = [''files'']"
  by code_simp

text \<open>
  C8, amended: \<open>createTable\<close> fails with the duplicate-table error when the name is
  registered (no database is returned, the registry stays as it is); for a name that is
  not registered it succeeds and appends the table to the registry, whatever types the
  column definitions name.  A column of a type outside the five accepts no value other
  than \<open>null\<close> and \<open>undefined\<close>.
\<close>

theorem createTable_duplicate_name_only:
  "(tables_has db n \<longrightarrow> createTable h db n cols = Inl (DuplicateTableError n))
   \<and> (\<not> tables_has db n \<longrightarrow>
        (\<exists>db'. createTable h db n cols = Inr db' \<and> listTables db' = listTables db @ [n]))
   \<and> (type c \<notin> the_five_types \<and> v \<noteq> Null \<and> v \<noteq> Undefined \<longrightarrow> \<not> validate h c v)"
  by (auto simp: createTable_def Let_def tables_saveToFile tables_has_def listTables_def
      keys_put_new validate_def the_five_types_def)


lemma users_database_has_users: "tables_has users_database ''users''"
  by code_simp

lemma empty_database_has_no_files: "\<not> tables_has empty_database ''files''"
  by code_simp

lemma type_blob_column: "type blob_column \<notin> the_five_types"
  by code_simp

theorem createTable_duplicate_name_only_witness:
  "tables_has users_database ''users''
   \<and> createTable plain_host users_database ''users'' [blob_definition]
       = Inl (DuplicateTableError ''users'')
   \<and> \<not> tables_has empty_database ''files''
   \<and> (\<exists>db'. createTable plain_host empty_database ''files'' [blob_definition] = Inr db'
          \<and> listTables db' = listTables empty_database @ [''files''])
   \<and> type blob_column \<notin> the_five_types
   \<and> \<not> validate plain_host blob_column (Str ''x'')"
proof -
  have present: "Str ''x'' \<noteq> Null" "Str ''x'' \<noteq> Undefined"
    by simp_all
  show ?thesis
    using createTable_duplicate_name_only
            [of users_database "''users''" plain_host "[blob_definition]" blob_column "Str ''x''"]
          createTable_duplicate_name_only
            [of empty_database "''files''" plain_host "[blob_definition]" blob_column "Str ''x''"]
          users_database_has_users empty_database_has_no_files type_blob_column present
    by blast
qed








section \<open>Index entries under insert and delete\<close>

lemma set_findByIndex: "set (findByIndex t k v) = row_at (rows t) ` entries (indexes t) k v"
  by (simp add: findByIndex_def entries_def split: option.splits)

lemma entries_removeFromIndex:
  "entries (removeFromIndex ixs k0 v0 p) k v
     = (if k = k0 \<and> v = v0 then entries ixs k v - {p} else entries ixs k v)"
  by (auto simp: removeFromIndex_def entries_def Let_def filter_empty_conv split: option.splits)

lemma entries_updateIndex:
  "entries (updateIndex ixs k0 v0 p) k v \<subseteq> insert p (entries ixs k v)"
  by (auto simp: updateIndex_def entries_def Let_def split: option.splits if_splits)

lemma entries_index_row: "entries (index_row cols row n ixs) k v \<subseteq> insert n (entries ixs k v)"
  unfolding index_row_def
proof (induction cols arbitrary: ixs)
  case Nil
  then show ?case by auto
next
  case (Cons c cs)
  show ?case
    using Cons.IH [of "if primaryKey c \<or> unique c
                       then updateIndex ixs (name c) (get row (name c)) n else ixs"]
      entries_updateIndex [of ixs "name c" "get row (name c)" n k v]
    by (auto split: if_splits)
qed

lemma entries_fold_remove:
  "entries (fold (\<lambda>c m. if primaryKey c \<or> unique c
                         then removeFromIndex m (name c) (get row (name c)) p else m) cols ixs) k v
     \<subseteq> entries ixs k v - (if k \<in> name ` {c \<in> set cols. primaryKey c \<or> unique c} \<and> v = get row k then {p} else {})"
proof (induction cols arbitrary: ixs)
  case Nil
  then show ?case by auto
next
  case (Cons c cs)
  show ?case
    using Cons.IH [of "if primaryKey c \<or> unique c
                       then removeFromIndex ixs (name c) (get row (name c)) p else ixs"]
    by (auto simp: entries_removeFromIndex split: if_splits)
qed

lemma entries_renumber_one:
  "entries (case m k0 of Some indexMap \<Rightarrow> m(k0 \<mapsto> renumber indexMap p) | None \<Rightarrow> m) k v
     = (if k = k0 then renumbered p (entries m k v) else entries m k v)"
  by (auto simp: entries_def renumber_def renumbered_def split: option.splits)

lemma entries_fold_renumber:
  assumes "distinct (map name cols)"
  shows "entries (fold (\<lambda>c m. if primaryKey c \<or> unique c
                         then (case m (name c) of
                                 Some indexMap \<Rightarrow> m(name c \<mapsto> renumber indexMap p)
                               | None \<Rightarrow> m)
                         else m) cols ixs) k v
     = (if k \<in> name ` {c \<in> set cols. primaryKey c \<or> unique c}
        then renumbered p (entries ixs k v) else entries ixs k v)"
  using assms
proof (induction cols arbitrary: ixs)
  case Nil
  then show ?case by simp
next
  case (Cons c cs)
  let ?m = "if primaryKey c \<or> unique c
            then (case ixs (name c) of Some indexMap \<Rightarrow> ixs(name c \<mapsto> renumber indexMap p) | None \<Rightarrow> ixs)
            else ixs"
  have IH: "entries (fold (\<lambda>c m. if primaryKey c \<or> unique c
                         then (case m (name c) of
                                 Some indexMap \<Rightarrow> m(name c \<mapsto> renumber indexMap p)
                               | None \<Rightarrow> m)
                         else m) cs ?m) k v
     = (if k \<in> name ` {c \<in> set cs. primaryKey c \<or> unique c}
        then renumbered p (entries ?m k v) else entries ?m k v)"
    using Cons.IH [of ?m] Cons.prems by simp
  have notin: "name c \<notin> name ` set cs"
    using Cons.prems by auto
  show ?case
  proof (cases "primaryKey c \<or> unique c")
    case True
    then have m: "entries ?m k v = (if k = name c then renumbered p (entries ixs k v) else entries ixs k v)"
      using entries_renumber_one [of ixs "name c" p k v] by simp
    show ?thesis
      using IH m True notin by (auto split: if_splits)
  next
    case False
    then show ?thesis
      using IH by auto
  qed
qed

lemma row_at_delete:
  assumes "p < length rs" and "i \<noteq> p" and "(if i > p then i - 1 else i) \<noteq> p"
  shows "row_at (take p rs @ drop (Suc p) rs) (if i > p then i - 1 else i) = row_at rs i"
proof (cases "i > p")
  case False
  with assms have "i < p" by simp
  with assms show ?thesis by (auto simp: row_at_def nth_append)
next
  case True
  with assms have i: "i > Suc p" by (auto split: if_splits)
  with assms show ?thesis
    by (auto simp: row_at_def nth_append min_def)
qed

lemma columns_delete_at: "columns (delete_at t p) = columns t"
  by (simp add: delete_at_def Let_def)

lemma length_rows_delete_at: "p < length (rows t) \<Longrightarrow> length (rows (delete_at t p)) = length (rows t) - 1"
  by (auto simp: delete_at_def Let_def)

lemma findByIndex_delete_at:
  assumes "distinct (map name (columns t))" and "c \<in> set (columns t)"
    and "primaryKey c \<or> unique c" and "p < length (rows t)"
  shows "set (findByIndex (delete_at t p) (name c) v)
           \<subseteq> row_at (rows t) ` (entries (indexes t) (name c) v - {p})"
proof
  fix r assume "r \<in> set (findByIndex (delete_at t p) (name c) v)"
  then obtain j' where j': "j' \<in> entries (indexes (delete_at t p)) (name c) v"
    and r: "r = row_at (rows (delete_at t p)) j'"
    by (auto simp: set_findByIndex)
  have member: "name c \<in> name ` {c \<in> set (columns t). primaryKey c \<or> unique c}"
    using assms by auto
  from j' have "j' \<in> renumbered p (entries (fold (\<lambda>c m. if primaryKey c \<or> unique c
          then removeFromIndex m (name c) (get (rows t ! p) (name c)) p else m)
          (columns t) (indexes t)) (name c) v)"
    using entries_fold_renumber [OF assms(1), of p _ "name c" v] member
    by (simp add: delete_at_def Let_def)
  then obtain j where j: "j \<in> entries (indexes t) (name c) v"
    and jj: "j' = (if j > p then j - 1 else j)" and ne: "j' \<noteq> p"
    using entries_fold_remove [of "rows t ! p" p "columns t" "indexes t" "name c" v]
    by (auto simp: renumbered_def)
  have "j \<noteq> p" using jj ne by auto
  moreover have "row_at (rows (delete_at t p)) j' = row_at (rows t) j"
    using row_at_delete [OF assms(4) \<open>j \<noteq> p\<close>] jj ne by (simp add: delete_at_def Let_def)
  ultimately show "r \<in> row_at (rows t) ` (entries (indexes t) (name c) v - {p})"
    using j r by auto
qed

lemma findByIndex_fold_delete_at:
  assumes "sorted_wrt (>) ps" and "\<forall>p\<in>set ps. p < length (rows t)"
    and "distinct (map name (columns t))" and "c \<in> set (columns t)" and "primaryKey c \<or> unique c"
  shows "set (findByIndex (fold (\<lambda>index t'. delete_at t' index) ps t) (name c) v)
           \<subseteq> set (findByIndex t (name c) v)"
  using assms
proof (induction ps arbitrary: t)
  case Nil
  then show ?case by simp
next
  case (Cons p ps)
  have p: "p < length (rows t)" using Cons.prems by simp
  have "\<forall>q\<in>set ps. q < length (rows (delete_at t p))"
    using Cons.prems p by (auto simp: length_rows_delete_at)
  then have "set (findByIndex (fold (\<lambda>index t'. delete_at t' index) ps (delete_at t p)) (name c) v)
      \<subseteq> set (findByIndex (delete_at t p) (name c) v)"
    using Cons.IH [of "delete_at t p"] Cons.prems by (simp add: columns_delete_at)
  also have "\<dots> \<subseteq> set (findByIndex t (name c) v)"
    using findByIndex_delete_at [OF Cons.prems(3,4,5) p, of v] by (auto simp: set_findByIndex)
  finally show ?case by simp
qed

lemma sort_matching: "sort (matching t wh) = matching t wh"
  by (simp add: matching_def sorted_sort_id sorted_wrt_filter)

lemma matching_descending: "sorted_wrt (>) (rev (sort (matching t wh)))"
proof -
  have "sorted_wrt (<) (matching t wh)"
    by (simp add: matching_def sorted_wrt_filter)
  then show ?thesis
    by (simp add: sort_matching sorted_wrt_rev)
qed

lemma matching_bound: "\<forall>p\<in>set (rev (sort (matching t wh))). p < length (rows t)"
  by (simp add: sort_matching) (simp add: matching_def)

lemma columns_fold_delete_at: "columns (fold (\<lambda>index t'. delete_at t' index) ps t) = columns t"
  by (induction ps arbitrary: t) (simp_all add: columns_delete_at)

lemma columns_delete: "columns (fst (delete t wh)) = columns t"
  by (simp add: delete_def Let_def columns_fold_delete_at)

lemma row_at_snoc: "i \<noteq> length rs \<Longrightarrow> row_at (rs @ [r]) i = row_at rs i"
  by (auto simp: row_at_def nth_append)

lemma validateColumn_subset:
  assumes "validateColumn h t d c = []"
    and "unique c \<Longrightarrow> set (findByIndex t' (name c) (get d (name c)))
                        \<subseteq> set (findByIndex t (name c) (get d (name c)))"
  shows "validateColumn h t' d c = []"
proof (cases "unique c \<and> get d (name c) \<noteq> Undefined \<and> get d (name c) \<noteq> Null")
  case False
  with assms(1) show ?thesis
    by (auto simp: validateColumn_def Let_def split: if_splits)
next
  case True
  let ?old = "findByIndex t (name c) (get d (name c))"
  let ?new = "findByIndex t' (name c) (get d (name c))"
  from assms(1) True have old: "?old = [] \<or> isSameRow d ?old"
    by (auto simp: validateColumn_def Let_def split: if_splits)
  have sub: "set ?new \<subseteq> set ?old" using assms(2) True by simp
  have "?new = [] \<or> isSameRow d ?new"
    using old sub by (auto simp: isSameRow_def list_all_iff)
  with assms(1) True show ?thesis
    by (auto simp: validateColumn_def Let_def split: if_splits)
qed

text \<open>
  C7: insert a row, delete with a predicate that matches it (such as: the primary key
  equals 1), insert the same data again: the second insert succeeds and stores the same
  row.  The delete takes the entries of the deleted rows out of every index: what the
  index of an indexed column gives afterwards, for any value, are rows it gave before the
  first insert.  The column names of the table are distinct.
\<close>

theorem insert_delete_insert:
  assumes names: "distinct (map name (columns t))"
    and first: "insert_row h t d = (t1, Inr (Inserted row), b1)"
    and matches: "case wh of None \<Rightarrow> True | Some p \<Rightarrow> p row"
  shows "fst (snd (insert_row h (fst (delete t1 wh)) d)) = Inr (Inserted row)
       \<and> (\<forall>c\<in>set (columns t). \<forall>v. primaryKey c \<or> unique c \<longrightarrow>
            set (findByIndex (fst (delete t1 wh)) (name c) v) \<subseteq> set (findByIndex t (name c) v))"
proof -
  let ?n = "length (rows t)"
  from first have valid: "validateRow h t d = []"
    and built: "build_row h d (columns t) [] = Inr row"
    and t1: "t1 = t\<lparr>rows := rows t @ [row],
                    indexes := index_row (columns t) row ?n (indexes t)\<rparr>"
    by (auto simp: insert_row_def Let_def split: if_splits sum.splits)
  have cols1: "columns t1 = columns t" and rows1: "rows t1 = rows t @ [row]"
    by (simp_all add: t1)
  have "matching t1 wh = matching t wh @ [?n]"
    using matches by (auto simp: matching_def rows1 nth_append split: option.splits intro: filter_cong)
  then have order: "rev (sort (matching t1 wh)) = ?n # rev (matching t wh)"
    using sort_matching [of t1 wh] by simp
  let ?t' = "delete_at t1 ?n"
  let ?t2 = "fst (delete t1 wh)"
  have t2: "?t2 = fold (\<lambda>index t'. delete_at t' index) (rev (matching t wh)) ?t'"
    by (simp add: delete_def Let_def order)
  have len': "length (rows ?t') = ?n"
    by (simp add: length_rows_delete_at rows1)
  have cols': "columns ?t' = columns t"
    by (simp add: columns_delete_at cols1)
  have found: "set (findByIndex ?t2 (name c) v) \<subseteq> set (findByIndex t (name c) v)"
    if c: "c \<in> set (columns t)" and indexed: "primaryKey c \<or> unique c" for c v
  proof -
    have desc: "sorted_wrt (>) (rev (matching t wh))"
      using matching_descending [of t wh] by (simp add: sort_matching)
    have bound: "\<forall>p\<in>set (rev (matching t wh)). p < length (rows ?t')"
      using matching_bound [of t wh] by (simp add: sort_matching len')
    have "set (findByIndex ?t2 (name c) v) \<subseteq> set (findByIndex ?t' (name c) v)"
      unfolding t2
      using findByIndex_fold_delete_at [OF desc bound, of c v] names c indexed cols' by simp
    also have "\<dots> \<subseteq> row_at (rows t1) ` (entries (indexes t1) (name c) v - {?n})"
      using findByIndex_delete_at [of t1 c ?n v] names c indexed cols1 rows1 by simp
    also have "\<dots> \<subseteq> row_at (rows t) ` entries (indexes t) (name c) v"
    proof
      fix r assume "r \<in> row_at (rows t1) ` (entries (indexes t1) (name c) v - {?n})"
      then obtain j where j: "j \<in> entries (indexes t1) (name c) v" "j \<noteq> ?n"
        and r: "r = row_at (rows t1) j"
        by auto
      from j have "j \<in> entries (indexes t) (name c) v"
        using entries_index_row [of "columns t" row ?n "indexes t" "name c" v] by (auto simp: t1)
      moreover have "row_at (rows t1) j = row_at (rows t) j"
        using j(2) by (simp add: rows1 row_at_snoc)
      ultimately show "r \<in> row_at (rows t) ` entries (indexes t) (name c) v"
        using r by auto
    qed
    finally show ?thesis
      by (simp add: set_findByIndex)
  qed
  have cols2: "columns ?t2 = columns t"
    by (simp add: columns_delete cols1)
  have "validateColumn h ?t2 d c = []" if c: "c \<in> set (columns t)" for c
  proof (rule validateColumn_subset)
    show "validateColumn h t d c = []"
      using valid c by (auto simp: validateRow_def)
    show "set (findByIndex ?t2 (name c) (get d (name c)))
            \<subseteq> set (findByIndex t (name c) (get d (name c)))" if "unique c"
      using found [OF c] that by simp
  qed
  then have "validateRow h ?t2 d = []"
    by (simp add: validateRow_def cols2)
  then have "fst (snd (insert_row h ?t2 d)) = Inr (Inserted row)"
    using built by (simp add: insert_row_def Let_def cols2)
  then show ?thesis
    using found by blast
qed

lemma jobs_1_inserted:
  "insert_row plain_host jobs_0 (job 1 ''new'')
     = (jobs_1, Inr (Inserted (job 1 ''new'')), snd (snd (insert_row plain_host jobs_0 (job 1 ''new''))))"
proof -
  have "fst (snd (insert_row plain_host jobs_0 (job 1 ''new''))) = Inr (Inserted (job 1 ''new''))"
    by code_simp
  then show ?thesis
    by (simp add: jobs_1_def prod_eq_iff)
qed

lemma jobs_0_names: "distinct (map name (columns jobs_0))"
  by code_simp

lemma jobs_1_deleted:
  "id_is 1 (job 1 ''new'')
   \<and> primaryKey (hd (columns jobs_0)) \<and> name (hd (columns jobs_0)) = ''id''
   \<and> rows jobs_1 = [job 1 ''new'']
   \<and> findByIndex jobs_1 ''id'' (Num (Fin 1)) = [job 1 ''new'']
   \<and> rows (fst (delete jobs_1 (Some (id_is 1)))) = []
   \<and> findByIndex (fst (delete jobs_1 (Some (id_is 1)))) ''id'' (Num (Fin 1)) = []"
  by code_simp

theorem insert_delete_insert_witness:
  "distinct (map name (columns jobs_0))
   \<and> insert_row plain_host jobs_0 (job 1 ''new'')
       = (jobs_1, Inr (Inserted (job 1 ''new'')), snd (snd (insert_row plain_host jobs_0 (job 1 ''new''))))
   \<and> id_is 1 (job 1 ''new'')
   \<and> primaryKey (hd (columns jobs_0)) \<and> name (hd (columns jobs_0)) = ''id''
   \<and> rows jobs_1 = [job 1 ''new'']
   \<and> findByIndex jobs_1 ''id'' (Num (Fin 1)) = [job 1 ''new'']
   \<and> rows (fst (delete jobs_1 (Some (id_is 1)))) = []
   \<and> findByIndex (fst (delete jobs_1 (Some (id_is 1)))) ''id'' (Num (Fin 1)) = []
   \<and> fst (snd (insert_row plain_host (fst (delete jobs_1 (Some (id_is 1)))) (job 1 ''new'')))
       = Inr (Inserted (job 1 ''new''))"
proof -
  have "case Some (id_is 1) of None \<Rightarrow> True | Some p \<Rightarrow> p (job 1 ''new'')"
    using jobs_1_deleted by simp
  from insert_delete_insert [OF jobs_0_names jobs_1_inserted this]
  have "fst (snd (insert_row plain_host (fst (delete jobs_1 (Some (id_is 1)))) (job 1 ''new'')))
          = Inr (Inserted (job 1 ''new''))"
    by blast
  then show ?thesis
    using jobs_0_names jobs_1_inserted jobs_1_deleted by blast
qed


section \<open>The invariant of the persistence queue\<close>

lemma fq_inv_new: "fq_inv new_FileQueue"
  by (simp add: fq_inv_def tidy_def idle_def new_FileQueue_def pending_def)

lemma enqueue_idle:
  assumes "tidy s" and "idle s"
  shows "tidy (enqueue fp d s) \<and> in_flight (enqueue fp d s) \<lparr>filePath = fp, data = d, jid = next_jid s\<rparr>"
  using assms
  by (auto simp: tidy_def idle_def in_flight_def enqueue_def processQueue_def pending_def
      retryCount_def Let_def intro: less_SucI)

lemma tidy_enqueue_busy:
  assumes "tidy s" and "isProcessing s"
  shows "tidy (enqueue fp d s)"
  using assms
  by (auto simp: tidy_def enqueue_def pending_def Let_def intro: less_SucI)

lemma phase_enqueue_busy:
  assumes "isProcessing s"
  shows "between s \<Longrightarrow> between (enqueue fp d s)"
    and "in_flight s it \<Longrightarrow> in_flight (enqueue fp d s) it"
    and "waiting s it \<Longrightarrow> waiting (enqueue fp d s) it"
  using assms
  by (auto simp: between_def in_flight_def waiting_def enqueue_def retryCount_def Let_def)

lemma fq_inv_enqueue:
  assumes "fq_inv s"
  shows "fq_inv (enqueue fp d s)"
proof (cases "isProcessing s")
  case False
  with assms have "tidy s" "idle s"
    by (auto simp: fq_inv_def between_def in_flight_def waiting_def)
  then show ?thesis
    using enqueue_idle [of s fp d] by (auto simp: fq_inv_def)
next
  case True
  with assms have "between s \<or> (\<exists>it. in_flight s it) \<or> (\<exists>it. waiting s it)"
    by (auto simp: fq_inv_def idle_def)
  then have "between (enqueue fp d s) \<or> (\<exists>it. in_flight (enqueue fp d s) it)
      \<or> (\<exists>it. waiting (enqueue fp d s) it)"
    using phase_enqueue_busy [OF True] by blast
  moreover have "tidy (enqueue fp d s)"
    using assms True tidy_enqueue_busy by (auto simp: fq_inv_def)
  ultimately show ?thesis
    by (auto simp: fq_inv_def)
qed

lemma fq_inv_write_succeeded:
  assumes "tidy s" and "in_flight s it"
  shows "tidy (write_succeeded it s) \<and> between (write_succeeded it s)"
  using assms
  by (auto simp: tidy_def in_flight_def between_def write_succeeded_def pending_def retryCount_def
      fun_eq_iff)

lemma fq_inv_write_failed:
  assumes "tidy s" and "in_flight s it"
  shows "tidy (write_failed it s)
       \<and> (if retryCount s (filePath it) < MAX_RETRIES then waiting (write_failed it s) it
          else between (write_failed it s))"
  using assms
  by (auto simp: tidy_def in_flight_def between_def waiting_def write_failed_def pending_def
      retryCount_def fun_eq_iff Let_def)

lemma fq_inv_timer_fired:
  assumes "tidy s" and "waiting s it"
  shows "tidy (timer_fired it s) \<and> in_flight (timer_fired it s) it"
  using assms
  by (auto simp: tidy_def in_flight_def waiting_def timer_fired_def processQueue_def pending_def
      retryCount_def)

lemma fresh_head:
  assumes "distinct (map jid (it # xs))" and "x \<in> set xs"
  shows "jid x \<noteq> jid it"
  using assms by (metis distinct.simps(2) image_eqI list.simps(9) set_map)

lemma tidy_processQueue:
  assumes "tidy s" and "writing s = []"
  shows "tidy (processQueue s)"
proof (cases "queue s")
  case Nil
  with assms show ?thesis
    by (simp add: tidy_def processQueue_def pending_def)
next
  case (Cons it rest)
  have d: "distinct (map jid (it # (rest @ timers s @ written s @ dropped s)))"
    using assms Cons by (simp add: tidy_def pending_def)
  have fresh: "jid x \<noteq> jid it" if "x \<in> set (rest @ timers s @ written s @ dropped s)" for x
    using fresh_head [OF d that] .
  have 1: "distinct (map jid (pending (processQueue s) @ written (processQueue s) @ dropped (processQueue s)))"
    using d assms(2) Cons by (auto simp: processQueue_def pending_def)
  have 2: "\<forall>x\<in>set (pending (processQueue s) @ written (processQueue s) @ dropped (processQueue s)).
             jid x < next_jid (processQueue s)"
    using assms Cons by (auto simp: tidy_def processQueue_def pending_def)
  have 3: "\<forall>i. next_jid (processQueue s) \<le> i \<longrightarrow>
             attempts (processQueue s) i = 0 \<and> requeued (processQueue s) i = 0"
    using assms Cons by (auto simp: tidy_def processQueue_def pending_def)
  have 6: "\<forall>i. i \<notin> jid ` set (pending (processQueue s) @ written (processQueue s)
                     @ dropped (processQueue s)) \<longrightarrow>
             attempts (processQueue s) i = 0 \<and> requeued (processQueue s) i = 0"
    using assms Cons by (auto simp: tidy_def processQueue_def pending_def)
  have 4: "\<forall>x\<in>set (queue (processQueue s)).
             attempts (processQueue s) (jid x) = 0 \<and> requeued (processQueue s) (jid x) = 0"
    using assms Cons fresh by (auto simp: tidy_def processQueue_def pending_def)
  have 5: "\<forall>x\<in>set (written (processQueue s) @ dropped (processQueue s)).
             attempts (processQueue s) (jid x) \<le> MAX_RETRIES + 1
           \<and> requeued (processQueue s) (jid x) \<le> MAX_RETRIES"
    using assms Cons fresh by (auto simp: tidy_def processQueue_def pending_def)
  show ?thesis
    unfolding tidy_def using 1 2 3 4 5 6 by blast
qed

lemma fq_inv_immediate_fired:
  assumes "tidy s" and "between s"
  shows "tidy (immediate_fired s)
       \<and> (case queue s of [] \<Rightarrow> idle (immediate_fired s)
           | it # rest \<Rightarrow> in_flight (immediate_fired s) it)"
proof -
  let ?s = "s\<lparr>immediates := immediates s - 1\<rparr>"
  have "tidy ?s" and "writing ?s = []"
    using assms by (simp_all add: tidy_def between_def pending_def)
  then have "tidy (immediate_fired s)"
    unfolding immediate_fired_def by (rule tidy_processQueue)
  moreover have "case queue s of [] \<Rightarrow> idle (immediate_fired s)
           | it # rest \<Rightarrow> in_flight (immediate_fired s) it"
    using assms
    by (auto simp: tidy_def in_flight_def between_def idle_def immediate_fired_def
        processQueue_def retryCount_def split: list.splits)
  ultimately show ?thesis by blast
qed

lemma find_single:
  assumes "List.find P [it] = Some y"
  shows "y = it"
  using assms by (simp split: if_splits)

lemma writing_in_flight:
  assumes "fq_inv s" and "List.find P (writing s) = Some it"
  shows "in_flight s it"
proof -
  from assms(2) have "writing s \<noteq> []" by auto
  with assms(1) obtain it' where f: "in_flight s it'"
    unfolding fq_inv_def idle_def between_def waiting_def by blast
  then have "writing s = [it']" by (simp add: in_flight_def)
  with assms(2) have "it = it'" using find_single by metis
  with f show ?thesis by simp
qed

lemma timers_waiting:
  assumes "fq_inv s" and "List.find P (timers s) = Some it"
  shows "waiting s it"
proof -
  from assms(2) have "timers s \<noteq> []" by auto
  with assms(1) obtain it' where f: "waiting s it'"
    unfolding fq_inv_def idle_def between_def in_flight_def by blast
  then have "timers s = [it']" by (simp add: waiting_def)
  with assms(2) have "it = it'" using find_single by metis
  with f show ?thesis by simp
qed

lemma immediates_between:
  assumes "fq_inv s" and "immediates s > 0"
  shows "between s"
  using assms unfolding fq_inv_def idle_def in_flight_def waiting_def by auto

lemma fq_inv_tidy: "fq_inv s \<Longrightarrow> tidy s"
  by (simp add: fq_inv_def)

lemma fq_inv_step:
  assumes "fq_inv s"
  shows "fq_inv (step e s)"
proof (cases e)
  case (Enqueue fp d)
  then show ?thesis
    using assms by (simp add: step_def fq_inv_enqueue)
next
  case (WriteOk i)
  show ?thesis
  proof (cases "List.find (\<lambda>x. jid x = i) (writing s)")
    case None
    with WriteOk assms show ?thesis by (simp add: step_def)
  next
    case (Some it)
    have "tidy (write_succeeded it s) \<and> between (write_succeeded it s)"
      using fq_inv_write_succeeded [OF fq_inv_tidy [OF assms] writing_in_flight [OF assms Some]] .
    then have "fq_inv (write_succeeded it s)"
      unfolding fq_inv_def by blast
    with Some WriteOk show ?thesis by (simp add: step_def)
  qed
next
  case (WriteFail i)
  show ?thesis
  proof (cases "List.find (\<lambda>x. jid x = i) (writing s)")
    case None
    with WriteFail assms show ?thesis by (simp add: step_def)
  next
    case (Some it)
    have "tidy (write_failed it s)
       \<and> (if retryCount s (filePath it) < MAX_RETRIES then waiting (write_failed it s) it
          else between (write_failed it s))"
      using fq_inv_write_failed [OF fq_inv_tidy [OF assms] writing_in_flight [OF assms Some]] .
    then have "fq_inv (write_failed it s)"
      unfolding fq_inv_def by (cases "retryCount s (filePath it) < MAX_RETRIES") auto
    with Some WriteFail show ?thesis by (simp add: step_def)
  qed
next
  case (TimerFires i)
  show ?thesis
  proof (cases "List.find (\<lambda>x. jid x = i) (timers s)")
    case None
    with TimerFires assms show ?thesis by (simp add: step_def)
  next
    case (Some it)
    have "tidy (timer_fired it s) \<and> in_flight (timer_fired it s) it"
      using fq_inv_timer_fired [OF fq_inv_tidy [OF assms] timers_waiting [OF assms Some]] .
    then have "fq_inv (timer_fired it s)"
      unfolding fq_inv_def by blast
    with Some TimerFires show ?thesis by (simp add: step_def)
  qed
next
  case ImmediateFires
  show ?thesis
  proof (cases "immediates s > 0")
    case False
    with ImmediateFires assms show ?thesis by (simp add: step_def)
  next
    case True
    have "tidy (immediate_fired s)
       \<and> (case queue s of [] \<Rightarrow> idle (immediate_fired s)
           | it # rest \<Rightarrow> in_flight (immediate_fired s) it)"
      using fq_inv_immediate_fired [OF fq_inv_tidy [OF assms] immediates_between [OF assms True]] .
    then have "fq_inv (immediate_fired s)"
      unfolding fq_inv_def by (cases "queue s") auto
    with True ImmediateFires show ?thesis by (simp add: step_def)
  qed
qed

lemma fq_inv_run: "fq_inv s \<Longrightarrow> fq_inv (run es s)"
  unfolding run_def by (induction es arbitrary: s) (simp_all add: fq_inv_step)

section \<open>Retries of the persistence queue\<close>

lemma fq_inv_reachable: "fq_inv (run es new_FileQueue)"
  by (rule fq_inv_run [OF fq_inv_new])

lemma attempts_bounded:
  assumes "fq_inv s"
  shows "attempts s i \<le> MAX_RETRIES + 1 \<and> requeued s i \<le> MAX_RETRIES"
proof (cases "i \<in> jid ` set (pending s @ written s @ dropped s)")
  case False
  with assms show ?thesis by (simp add: fq_inv_def tidy_def)
next
  case True
  then obtain it where it: "it \<in> set (pending s @ written s @ dropped s)" and i: "i = jid it"
    by auto
  consider "it \<in> set (queue s)" | "it \<in> set (writing s)" | "it \<in> set (timers s)"
    | "it \<in> set (written s @ dropped s)"
    using it by (auto simp: pending_def)
  then show ?thesis
  proof cases
    case 1
    with assms i show ?thesis by (simp add: fq_inv_def tidy_def)
  next
    case 2
    with assms have "in_flight s it"
      unfolding fq_inv_def idle_def between_def in_flight_def waiting_def by auto
    with i show ?thesis by (simp add: in_flight_def)
  next
    case 3
    with assms have "waiting s it"
      unfolding fq_inv_def idle_def between_def in_flight_def waiting_def by auto
    with i show ?thesis by (simp add: waiting_def)
  next
    case 4
    with assms i show ?thesis by (simp add: fq_inv_def tidy_def)
  qed
qed

lemma write_ok_clears:
  assumes "fq_inv s" and "it \<in> set (writing s)"
  shows "retryCount (step (WriteOk (jid it)) s) (filePath it) = 0
       \<and> it \<in> set (written (step (WriteOk (jid it)) s))
       \<and> it \<notin> set (pending (step (WriteOk (jid it)) s))"
proof -
  from assms have f: "in_flight s it"
    unfolding fq_inv_def idle_def between_def in_flight_def waiting_def by auto
  then have w: "writing s = [it]" by (simp add: in_flight_def)
  have "it \<notin> set (queue s)"
    using assms f by (auto simp: fq_inv_def tidy_def pending_def in_flight_def)
  then show ?thesis
    using f by (simp add: step_def w write_succeeded_def retryCount_def pending_def in_flight_def)
qed

lemma write_fail_retries:
  assumes "fq_inv s" and "it \<in> set (writing s)" and "retryCount s (filePath it) < MAX_RETRIES"
  shows "timers (step (WriteFail (jid it)) s) = [it]
       \<and> retryCount (step (WriteFail (jid it)) s) (filePath it) = retryCount s (filePath it) + 1"
proof -
  from assms have f: "in_flight s it"
    unfolding fq_inv_def idle_def between_def in_flight_def waiting_def by auto
  then have w: "writing s = [it]" by (simp add: in_flight_def)
  show ?thesis
    using f assms(3)
    by (simp add: step_def w write_failed_def retryCount_def in_flight_def Let_def)
qed

lemma write_fail_drops:
  assumes "fq_inv s" and "it \<in> set (writing s)" and "\<not> retryCount s (filePath it) < MAX_RETRIES"
  shows "it \<in> set (dropped (step (WriteFail (jid it)) s))
       \<and> it \<notin> set (pending (step (WriteFail (jid it)) s))
       \<and> retryCount (step (WriteFail (jid it)) s) (filePath it) = 0
       \<and> attempts s (jid it) = MAX_RETRIES + 1
       \<and> writing (step ImmediateFires (step (WriteFail (jid it)) s)) = take 1 (queue s)"
proof -
  from assms have f: "in_flight s it"
    unfolding fq_inv_def idle_def between_def in_flight_def waiting_def by auto
  then have w: "writing s = [it]" by (simp add: in_flight_def)
  have q: "it \<notin> set (queue s)"
    using assms f by (auto simp: fq_inv_def tidy_def pending_def in_flight_def)
  have s': "step (WriteFail (jid it)) s
      = s\<lparr>writing := [], retryAttempts := (retryAttempts s)(filePath it := None),
           dropped := dropped s @ [it], immediates := Suc (immediates s)\<rparr>"
    using assms(3) by (simp add: step_def w write_failed_def retryCount_def Let_def)
  have a: "attempts s (jid it) = MAX_RETRIES + 1"
    using f assms(3) by (simp add: in_flight_def)
  show ?thesis
    unfolding s' using f q a
    by (cases "queue s")
       (simp_all add: step_def immediate_fired_def processQueue_def retryCount_def pending_def
          in_flight_def)
qed

lemma timer_retries_first:
  assumes "fq_inv s" and "it \<in> set (timers s)"
  shows "writing (step (TimerFires (jid it)) s) = [it]
       \<and> queue (step (TimerFires (jid it)) s) = queue s"
proof -
  from assms have f: "waiting s it"
    unfolding fq_inv_def idle_def between_def in_flight_def waiting_def by auto
  then have w: "timers s = [it]" by (simp add: waiting_def)
  show ?thesis
    using f by (simp add: step_def w timer_fired_def processQueue_def waiting_def)
qed

lemma find_Some_set: "List.find P xs = Some x \<Longrightarrow> x \<in> set xs"
  by (auto simp: find_Some_iff)

lemma attempts_processQueue:
  assumes "attempts (processQueue s) i \<noteq> attempts s i"
  shows "i \<in> jid ` set (queue s)"
  using assms by (cases "queue s") (auto simp: processQueue_def split: if_splits)

lemma attempts_step:
  assumes "attempts (step e s) i \<noteq> attempts s i"
  shows "i = next_jid s \<or> i \<in> jid ` set (pending s)"
proof (cases e)
  case (Enqueue fp d)
  with assms show ?thesis
    using attempts_processQueue
            [of "s\<lparr>queue := queue s @ [\<lparr>filePath = fp, data = d, jid = next_jid s\<rparr>],
                   next_jid := Suc (next_jid s)\<rparr>" i]
    by (auto simp: step_def enqueue_def Let_def pending_def split: if_splits)
next
  case (WriteOk j)
  with assms show ?thesis
    by (auto simp: step_def write_succeeded_def split: option.splits)
next
  case (WriteFail j)
  with assms show ?thesis
    by (auto simp: step_def write_failed_def Let_def split: option.splits if_splits)
next
  case (TimerFires j)
  show ?thesis
  proof (cases "List.find (\<lambda>x. jid x = j) (timers s)")
    case None
    with TimerFires assms show ?thesis by (simp add: step_def)
  next
    case (Some it)
    then have "it \<in> set (timers s)" by (rule find_Some_set)
    with Some TimerFires assms show ?thesis
      using attempts_processQueue
              [of "s\<lparr>timers := remove1 it (timers s), queue := it # queue s,
                     requeued := (requeued s)(jid it := Suc (requeued s (jid it)))\<rparr>" i]
      by (auto simp: step_def timer_fired_def pending_def)
  qed
next
  case ImmediateFires
  with assms show ?thesis
    using attempts_processQueue [of "s\<lparr>immediates := immediates s - 1\<rparr>" i]
    by (auto simp: step_def immediate_fired_def pending_def split: if_splits)
qed

lemma dropped_step: "set (dropped s) \<subseteq> set (dropped (step e s))"
  by (cases e)
     (auto simp: step_def enqueue_def processQueue_def write_succeeded_def write_failed_def
        timer_fired_def immediate_fired_def Let_def split: option.splits list.splits if_splits)

lemma dropped_not_pending:
  assumes "fq_inv s" and "it \<in> set (dropped s)"
  shows "jid it \<notin> jid ` set (pending s)" and "jid it < next_jid s" and "it \<notin> set (pending s)"
proof -
  from assms have d: "distinct (map jid (pending s @ written s @ dropped s))"
    and b: "jid it < next_jid s"
    by (auto simp: fq_inv_def tidy_def)
  from d have "jid ` set (pending s) \<inter> jid ` set (dropped s) = {}"
    by auto
  with assms(2) show "jid it \<notin> jid ` set (pending s)" by blast
  then show "it \<notin> set (pending s)" by blast
  show "jid it < next_jid s" by (rule b)
qed

lemma dropped_forever:
  assumes "fq_inv s" and "it \<in> set (dropped s)"
  shows "it \<in> set (dropped (run es s)) \<and> it \<notin> set (pending (run es s))
       \<and> attempts (run es s) (jid it) = attempts s (jid it)"
  using assms
proof (induction es arbitrary: s)
  case Nil
  then show ?case
    using dropped_not_pending(3) by (simp add: run_def)
next
  case (Cons e es)
  have inv: "fq_inv (step e s)" using Cons.prems(1) by (rule fq_inv_step)
  have dr: "it \<in> set (dropped (step e s))" using Cons.prems(2) dropped_step by blast
  have "attempts (step e s) (jid it) = attempts s (jid it)"
    using attempts_step [of e s "jid it"] dropped_not_pending(1,2) [OF Cons.prems] by auto
  with Cons.IH [OF inv dr] show ?case
    by (simp add: run_def)
qed

text \<open>
  C6: in every state the queue reaches from the empty one by enqueues and by its own
  callbacks: the maximum of retries is 3; no item's write was started more than four
  times and no item was put back more than three times; a write that succeeds clears the
  retry counter of its destination; a write that fails below the maximum leaves the item
  with the retry timer and counts the retry, and the timer puts the item back at the front:
  it is the next one written, the jobs enqueued since keep their places; a write that fails
  at the maximum (the fourth attempt) drops the item and clears the counter, and the next
  callback writes the head of the queue; a dropped item is never pending again and its
  write is never started again.
\<close>

theorem retries_bounded:
  assumes "s = run es new_FileQueue"
  shows "MAX_RETRIES = 3
     \<and> attempts s i \<le> 4
     \<and> requeued s i \<le> 3
     \<and> (\<forall>it\<in>set (writing s).
          retryCount (step (WriteOk (jid it)) s) (filePath it) = 0
          \<and> it \<in> set (written (step (WriteOk (jid it)) s))
          \<and> it \<notin> set (pending (step (WriteOk (jid it)) s)))
     \<and> (\<forall>it\<in>set (writing s). retryCount s (filePath it) < MAX_RETRIES \<longrightarrow>
          timers (step (WriteFail (jid it)) s) = [it]
          \<and> retryCount (step (WriteFail (jid it)) s) (filePath it) = retryCount s (filePath it) + 1)
     \<and> (\<forall>it\<in>set (timers s).
          writing (step (TimerFires (jid it)) s) = [it]
          \<and> queue (step (TimerFires (jid it)) s) = queue s)
     \<and> (\<forall>it\<in>set (writing s). \<not> retryCount s (filePath it) < MAX_RETRIES \<longrightarrow>
          it \<in> set (dropped (step (WriteFail (jid it)) s))
          \<and> it \<notin> set (pending (step (WriteFail (jid it)) s))
          \<and> retryCount (step (WriteFail (jid it)) s) (filePath it) = 0
          \<and> attempts s (jid it) = 4
          \<and> writing (step ImmediateFires (step (WriteFail (jid it)) s)) = take 1 (queue s))
     \<and> (\<forall>it\<in>set (dropped s). \<forall>es'.
          it \<in> set (dropped (run es' s)) \<and> it \<notin> set (pending (run es' s))
          \<and> attempts (run es' s) (jid it) = attempts s (jid it))"
proof -
  have inv: "fq_inv s"
    unfolding assms by (rule fq_inv_reachable)
  have m: "MAX_RETRIES = 3" by (simp add: MAX_RETRIES_def)
  have "attempts s i \<le> 4 \<and> requeued s i \<le> 3"
    using attempts_bounded [OF inv, of i] by (simp add: m)
  moreover note m
  moreover have "\<forall>it\<in>set (writing s).
          retryCount (step (WriteOk (jid it)) s) (filePath it) = 0
          \<and> it \<in> set (written (step (WriteOk (jid it)) s))
          \<and> it \<notin> set (pending (step (WriteOk (jid it)) s))"
    using write_ok_clears [OF inv] by blast
  moreover have "\<forall>it\<in>set (writing s). retryCount s (filePath it) < MAX_RETRIES \<longrightarrow>
          timers (step (WriteFail (jid it)) s) = [it]
          \<and> retryCount (step (WriteFail (jid it)) s) (filePath it) = retryCount s (filePath it) + 1"
    using write_fail_retries [OF inv] by blast
  moreover have "\<forall>it\<in>set (timers s).
          writing (step (TimerFires (jid it)) s) = [it]
          \<and> queue (step (TimerFires (jid it)) s) = queue s"
    using timer_retries_first [OF inv] by blast
  moreover have "\<forall>it\<in>set (writing s). \<not> retryCount s (filePath it) < MAX_RETRIES \<longrightarrow>
          it \<in> set (dropped (step (WriteFail (jid it)) s))
          \<and> it \<notin> set (pending (step (WriteFail (jid it)) s))
          \<and> retryCount (step (WriteFail (jid it)) s) (filePath it) = 0
          \<and> attempts s (jid it) = 4
          \<and> writing (step ImmediateFires (step (WriteFail (jid it)) s)) = take 1 (queue s)"
    using write_fail_drops [OF inv] by (simp add: m)
  moreover have "\<forall>it\<in>set (dropped s). \<forall>es'.
          it \<in> set (dropped (run es' s)) \<and> it \<notin> set (pending (run es' s))
          \<and> attempts (run es' s) (jid it) = attempts s (jid it)"
    using dropped_forever [OF inv] by blast
  ultimately show ?thesis by blast
qed


lemma both_enqueued_state:
  "writing both_enqueued = [job_a] \<and> queue both_enqueued = [job_b]
   \<and> retryCount both_enqueued ''a.json'' = 0"
  by code_simp

lemma job_a_fields: "jid job_a = 0" "filePath job_a = ''a.json''"
  by (simp_all add: job_a_def)

lemma failed_once_state:
  "timers failed_once = [job_a] \<and> queue failed_once = [job_b]
   \<and> retryCount failed_once ''a.json'' = 1"
  by code_simp

lemma fourth_attempt_state:
  "writing fourth_attempt = [job_a] \<and> queue fourth_attempt = [job_b]
   \<and> retryCount fourth_attempt ''a.json'' = 3 \<and> attempts fourth_attempt 0 = 4"
  by code_simp

lemma failed_four_times_state:
  "dropped failed_four_times = [job_a] \<and> queue failed_four_times = [job_b]
   \<and> attempts failed_four_times 0 = 4 \<and> requeued failed_four_times 0 = 3"
  by code_simp

theorem retries_bounded_witness:
  "writing both_enqueued = [job_a] \<and> queue both_enqueued = [job_b]
   \<and> retryCount (step (WriteOk 0) both_enqueued) ''a.json'' = 0
   \<and> timers (step (WriteFail 0) both_enqueued) = [job_a]
   \<and> retryCount (step (WriteFail 0) both_enqueued) ''a.json'' = 1
   \<and> timers failed_once = [job_a] \<and> queue failed_once = [job_b]
   \<and> writing (step (TimerFires 0) failed_once) = [job_a]
   \<and> queue (step (TimerFires 0) failed_once) = [job_b]
   \<and> writing fourth_attempt = [job_a]
   \<and> attempts fourth_attempt 0 = 4
   \<and> job_a \<in> set (dropped (step (WriteFail 0) fourth_attempt))
   \<and> retryCount (step (WriteFail 0) fourth_attempt) ''a.json'' = 0
   \<and> writing (step ImmediateFires (step (WriteFail 0) fourth_attempt)) = [job_b]
   \<and> dropped failed_four_times = [job_a]
   \<and> attempts failed_four_times 0 = 4 \<and> requeued failed_four_times 0 = 3
   \<and> job_a \<notin> set (pending (run [ImmediateFires, WriteOk 1, Enqueue ''a.json'' 3] failed_four_times))
   \<and> attempts (run [ImmediateFires, WriteOk 1, Enqueue ''a.json'' 3] failed_four_times) 0 = 4"
proof -
  have a: "job_a \<in> set (writing both_enqueued)" "job_a \<in> set (timers failed_once)"
    "job_a \<in> set (writing fourth_attempt)" "job_a \<in> set (dropped failed_four_times)"
    using both_enqueued_state failed_once_state fourth_attempt_state failed_four_times_state
    by simp_all
  have low: "retryCount both_enqueued (filePath job_a) < MAX_RETRIES"
    and high: "\<not> retryCount fourth_attempt (filePath job_a) < MAX_RETRIES"
    using both_enqueued_state fourth_attempt_state by (simp_all add: MAX_RETRIES_def job_a_fields)
  note first = retries_bounded [OF both_enqueued_def, of 0]
  note second = retries_bounded [OF failed_once_def, of 0]
  note third = retries_bounded [OF fourth_attempt_def, of 0]
  note fourth = retries_bounded [OF failed_four_times_def, of 0]
  have "retryCount (step (WriteOk (jid job_a)) both_enqueued) (filePath job_a) = 0"
    using first a(1) by blast
  moreover have "timers (step (WriteFail (jid job_a)) both_enqueued) = [job_a]
      \<and> retryCount (step (WriteFail (jid job_a)) both_enqueued) (filePath job_a)
          = retryCount both_enqueued (filePath job_a) + 1"
    using first a(1) low by blast
  moreover have "writing (step (TimerFires (jid job_a)) failed_once) = [job_a]
      \<and> queue (step (TimerFires (jid job_a)) failed_once) = queue failed_once"
    using second a(2) by blast
  moreover have "job_a \<in> set (dropped (step (WriteFail (jid job_a)) fourth_attempt))
      \<and> retryCount (step (WriteFail (jid job_a)) fourth_attempt) (filePath job_a) = 0
      \<and> attempts fourth_attempt (jid job_a) = 4
      \<and> writing (step ImmediateFires (step (WriteFail (jid job_a)) fourth_attempt))
          = take 1 (queue fourth_attempt)"
    using third a(3) high by blast
  moreover have "job_a \<notin> set (pending (run [ImmediateFires, WriteOk 1, Enqueue ''a.json'' 3] failed_four_times))
      \<and> attempts (run [ImmediateFires, WriteOk 1, Enqueue ''a.json'' 3] failed_four_times) (jid job_a)
          = attempts failed_four_times (jid job_a)"
    using fourth a(4) by blast
  ultimately show ?thesis
    using both_enqueued_state failed_once_state fourth_attempt_state failed_four_times_state
    by (simp add: job_a_fields)
qed


section \<open>Restoring a database\<close>

text \<open>Restoration does not touch the persistence queue, and \<open>saveToFile\<close> does nothing while
  the database is initializing.\<close>

lemma fileQueue_restoreFromData: "fileQueue (restoreFromData h db savedData) = fileQueue db"
proof -
  have "fileQueue (fold (\<lambda>tableData db'.
                       case restore_table h tableData of
                         Inl e \<Rightarrow> db'
                       | Inr table \<Rightarrow> db'\<lparr>tables := put (tables db') (saved_name tableData) table\<rparr>)
                 tds db) = fileQueue db" for tds
    by (induction tds arbitrary: db) (auto split: sum.splits)
  then show ?thesis
    by (simp add: restoreFromData_def split: option.splits)
qed

lemma fileQueue_initializeStorage: "fileQueue (initializeStorage h db file) = fileQueue db"
  by (simp add: initializeStorage_def loadFromFile_def fileQueue_restoreFromData split: option.splits)

lemma saveToFile_initializing: "isInitializing db \<Longrightarrow> saveToFile h db = db"
  by (simp add: saveToFile_def)

text \<open>
  C5: restoring from a snapshot the database produced gives the tables and the row counts
  of the snapshot and enqueues no job.  The code at an input where the row counts differ:
  \<open>codes_database\<close> was made by \<open>createTable\<close> and the inserts of the number 1 and of the
  string \<open>"1"\<close> into the unique column \<open>code\<close>; both succeed (the index is asked for the
  string, its keys are the serialized numbers) and the table holds the row with \<open>code\<close> 1
  twice.  Its snapshot records two rows; the restoration refuses the second as a duplicate
  and the restored table has one row.  The table names are restored and nothing is
  enqueued.
\<close>

theorem restore_drops_duplicate_row:
  "listTables codes_database = [''codes'']
   \<and> rows (the (getTable codes_database ''codes'')) = [[(''code'', Num (Fin 1))], [(''code'', Num (Fin 1))]]
   \<and> rowCount (saved_schema (hd (the (snapshot_tables codes_snapshot)))) = 2
   \<and> saved_rows (hd (the (snapshot_tables codes_snapshot)))
       = Some [[(''code'', Num (Fin 1))], [(''code'', Num (Fin 1))]]
   \<and> listTables codes_restored = [''codes'']
   \<and> rows (the (getTable codes_restored ''codes'')) = [[(''code'', Num (Fin 1))]]
   \<and> next_jid (fileQueue codes_restored) = 0"
  by code_simp


end
